theory Spec2Isabelle
  imports Main "HOL-Library.Word" "HOL-Library.List_Lexorder" "HOL-Library.Code_Target_Numeral"
begin

unbundle bit_operations_syntax

section \<open>Python values\<close>

text \<open>
  A Python \<open>str\<close> is a sequence of code points; a \<open>bytes\<close> object is a sequence of
  octets.  Lone surrogates (U+D800 .. U+DFFF) can occur in a \<open>str\<close> (the \<open>json\<close> module
  produces them from escapes such as \<open>\ud800\<close>), and they have no UTF-8 encoding.
\<close>

type_synonym pystr = "nat list"
type_synonym byte = "8 word"
type_synonym u32 = "32 word"

definition ascii :: "string \<Rightarrow> pystr" where
  "ascii s = map of_char s"

text \<open>
  The values \<open>json.loads\<close> produces.  A \<open>float\<close> is its IEEE-754 bit pattern; a \<open>dict\<close>
  is a list of key/value pairs in insertion order, read by \<open>map_of\<close>.
\<close>

datatype pyval =
    PNone
  | PBool bool
  | PInt int
  | PFloat "64 word"
  | PStr pystr
  | PList "pyval list"
  | PDict "(pystr \<times> pyval) list"

text \<open>The exceptions the program can meet; all of them are subclasses of \<open>Exception\<close>.\<close>

datatype error =
    UnicodeEncodeError
  | ValueError
  | TypeError
  | KeyError
  | IndexError
  | AttributeError
  | JSONDecodeError
  | ValidationError
  | RequestException
  | UnexpectedResponse

text \<open>Truth value testing, as \<open>not x\<close> and \<open>if x\<close> use it.\<close>

fun truthy :: "pyval \<Rightarrow> bool" where
  "truthy PNone = False"
| "truthy (PBool b) = b"
| "truthy (PInt i) = (i \<noteq> 0)"
| "truthy (PFloat w) = (push_bit 1 w \<noteq> 0)"
| "truthy (PStr s) = (s \<noteq> [])"
| "truthy (PList xs) = (xs \<noteq> [])"
| "truthy (PDict kvs) = (kvs \<noteq> [])"

subsection \<open>Formatting in an f-string\<close>

function dec_digits :: "nat \<Rightarrow> pystr" where
  "dec_digits n = (if n < 10 then [48 + n] else dec_digits (n div 10) @ [48 + n mod 10])"
  by pat_completeness auto
termination
  by (relation "measure id") auto

definition str_int :: "int \<Rightarrow> pystr" where
  "str_int i = (if i < 0 then 45 # dec_digits (nat (- i)) else dec_digits (nat i))"

text \<open>
  \<open>f"{v}"\<close> is \<open>format(v, "")\<close>, which is \<open>str(v)\<close> for the values of JSON.  For a float, a
  list and a dict that is \<open>repr\<close>, which depends on the shortest-digits algorithm and on
  the Unicode character database; it is taken as the parameter \<open>rp\<close>.  The integers are
  those \<open>json.loads\<close> produces: a CPython that refuses to write an integer of more than
  4300 digits refuses to read one as well, so \<open>str\<close> of an integer read from JSON always
  returns.
\<close>

fun py_format :: "(pyval \<Rightarrow> pystr) \<Rightarrow> pyval \<Rightarrow> pystr" where
  "py_format rp PNone = ascii ''None''"
| "py_format rp (PBool b) = (if b then ascii ''True'' else ascii ''False'')"
| "py_format rp (PInt i) = str_int i"
| "py_format rp (PStr s) = s"
| "py_format rp v = rp v"

subsection \<open>UTF-8\<close>

text \<open>\<open>str.encode('utf-8')\<close> in strict mode: a surrogate raises \<open>UnicodeEncodeError\<close>.\<close>

definition utf8_units :: "nat \<Rightarrow> nat list option" where
  "utf8_units c =
     (if c < 0x80 then Some [c]
      else if c < 0x800 then Some [0xC0 + c div 64, 0x80 + c mod 64]
      else if 0xD800 \<le> c \<and> c < 0xE000 then None
      else if c < 0x10000 then
        Some [0xE0 + c div 4096, 0x80 + c div 64 mod 64, 0x80 + c mod 64]
      else if c < 0x110000 then
        Some [0xF0 + c div 262144, 0x80 + c div 4096 mod 64, 0x80 + c div 64 mod 64,
              0x80 + c mod 64]
      else None)"

fun utf8_nat :: "pystr \<Rightarrow> nat list option" where
  "utf8_nat [] = Some []"
| "utf8_nat (c # cs) =
     (case utf8_units c of
        None \<Rightarrow> None
      | Some us \<Rightarrow> (case utf8_nat cs of None \<Rightarrow> None | Some bs \<Rightarrow> Some (us @ bs)))"

definition utf8_encode :: "pystr \<Rightarrow> error + byte list" where
  "utf8_encode s =
     (case utf8_nat s of None \<Rightarrow> Inl UnicodeEncodeError | Some bs \<Rightarrow> Inr (map of_nat bs))"

definition encodable :: "pystr \<Rightarrow> bool" where
  "encodable s = (\<forall>c \<in> set s. c < 0x110000 \<and> \<not> (0xD800 \<le> c \<and> c < 0xE000))"

subsection \<open>MD5 (RFC 1321), as \<open>hashlib.md5\<close> computes it\<close>

definition md5_s :: "nat list" where
  "md5_s = [7, 12, 17, 22, 7, 12, 17, 22, 7, 12, 17, 22, 7, 12, 17, 22,
            5, 9, 14, 20, 5, 9, 14, 20, 5, 9, 14, 20, 5, 9, 14, 20,
            4, 11, 16, 23, 4, 11, 16, 23, 4, 11, 16, 23, 4, 11, 16, 23,
            6, 10, 15, 21, 6, 10, 15, 21, 6, 10, 15, 21, 6, 10, 15, 21]"

definition md5_K :: "u32 list" where
  "md5_K = [0xd76aa478, 0xe8c7b756, 0x242070db, 0xc1bdceee,
            0xf57c0faf, 0x4787c62a, 0xa8304613, 0xfd469501,
            0x698098d8, 0x8b44f7af, 0xffff5bb1, 0x895cd7be,
            0x6b901122, 0xfd987193, 0xa679438e, 0x49b40821,
            0xf61e2562, 0xc040b340, 0x265e5a51, 0xe9b6c7aa,
            0xd62f105d, 0x02441453, 0xd8a1e681, 0xe7d3fbc8,
            0x21e1cde6, 0xc33707d6, 0xf4d50d87, 0x455a14ed,
            0xa9e3e905, 0xfcefa3f8, 0x676f02d9, 0x8d2a4c8a,
            0xfffa3942, 0x8771f681, 0x6d9d6122, 0xfde5380c,
            0xa4beea44, 0x4bdecfa9, 0xf6bb4b60, 0xbebfbc70,
            0x289b7ec6, 0xeaa127fa, 0xd4ef3085, 0x04881d05,
            0xd9d4d039, 0xe6db99e5, 0x1fa27cf8, 0xc4ac5665,
            0xf4292244, 0x432aff97, 0xab9423a7, 0xfc93a039,
            0x655b59c3, 0x8f0ccc92, 0xffeff47d, 0x85845dd1,
            0x6fa87e4f, 0xfe2ce6e0, 0xa3014314, 0x4e0811a1,
            0xf7537e82, 0xbd3af235, 0x2ad7d2bb, 0xeb86d391]"

definition rotl32 :: "u32 \<Rightarrow> nat \<Rightarrow> u32" where
  "rotl32 x n = push_bit n x OR drop_bit (32 - n) x"

definition md5_F :: "nat \<Rightarrow> u32 \<Rightarrow> u32 \<Rightarrow> u32 \<Rightarrow> u32" where
  "md5_F i b c d =
     (if i < 16 then (b AND c) OR (NOT b AND d)
      else if i < 32 then (d AND b) OR (NOT d AND c)
      else if i < 48 then b XOR c XOR d
      else c XOR (b OR NOT d))"

definition md5_g :: "nat \<Rightarrow> nat" where
  "md5_g i =
     (if i < 16 then i
      else if i < 32 then (5 * i + 1) mod 16
      else if i < 48 then (3 * i + 5) mod 16
      else (7 * i) mod 16)"

type_synonym md5_state = "u32 \<times> u32 \<times> u32 \<times> u32"

fun md5_round :: "u32 list \<Rightarrow> md5_state \<Rightarrow> nat \<Rightarrow> md5_state" where
  "md5_round m (a, b, c, d) i =
     (let f = md5_F i b c d + a + md5_K ! i + m ! md5_g i
      in (d, b + rotl32 f (md5_s ! i), b, c))"

fun le_word32 :: "byte list \<Rightarrow> u32" where
  "le_word32 [] = 0"
| "le_word32 (x # xs) = ucast x OR push_bit 8 (le_word32 xs)"

fun chunks :: "nat \<Rightarrow> 'a list \<Rightarrow> 'a list list" where
  "chunks n [] = []"
| "chunks n (x # xs) =
     (if n = 0 then [] else take n (x # xs) # chunks n (drop n (x # xs)))"

definition md5_block :: "md5_state \<Rightarrow> byte list \<Rightarrow> md5_state" where
  "md5_block st blk =
     (let m = map le_word32 (chunks 4 blk);
          (a0, b0, c0, d0) = st;
          (a, b, c, d) = foldl (md5_round m) st [0..<64]
      in (a0 + a, b0 + b, c0 + c, d0 + d))"

fun le_bytes :: "nat \<Rightarrow> nat \<Rightarrow> byte list" where
  "le_bytes 0 v = []"
| "le_bytes (Suc k) v = of_nat (v mod 256) # le_bytes k (v div 256)"

definition md5_pad :: "byte list \<Rightarrow> byte list" where
  "md5_pad msg =
     msg @ [0x80] @ replicate ((55 + 64 - length msg mod 64) mod 64) 0
         @ le_bytes 8 ((8 * length msg) mod 2 ^ 64)"

definition md5_init :: md5_state where
  "md5_init = (0x67452301, 0xefcdab89, 0x98badcfe, 0x10325476)"

definition md5 :: "byte list \<Rightarrow> md5_state" where
  "md5 msg = foldl md5_block md5_init (chunks 64 (md5_pad msg))"

definition word_bytes :: "u32 \<Rightarrow> byte list" where
  "word_bytes w = [ucast w, ucast (drop_bit 8 w), ucast (drop_bit 16 w), ucast (drop_bit 24 w)]"

definition state_bytes :: "md5_state \<Rightarrow> byte list" where
  "state_bytes st =
     (case st of (a, b, c, d) \<Rightarrow> word_bytes a @ word_bytes b @ word_bytes c @ word_bytes d)"

definition md5_digest :: "byte list \<Rightarrow> byte list" where
  "md5_digest msg = state_bytes (md5 msg)"

subsection \<open>Hexadecimal text and UUIDs\<close>

definition hex_char :: "nat \<Rightarrow> nat" where
  "hex_char d = (if d < 10 then 48 + d else 87 + d)"

definition nibbles :: "byte list \<Rightarrow> nat list" where
  "nibbles bs = concat (map (\<lambda>b. [unat b div 16, unat b mod 16]) bs)"

definition hexdigest :: "byte list \<Rightarrow> pystr" where
  "hexdigest bs = map hex_char (nibbles bs)"

text \<open>\<open>int(h, 16)\<close> on a string of hexadecimal digits (either case).\<close>

definition hex_val :: "nat \<Rightarrow> nat option" where
  "hex_val c =
     (if 48 \<le> c \<and> c \<le> 57 then Some (c - 48)
      else if 97 \<le> c \<and> c \<le> 102 then Some (c - 87)
      else if 65 \<le> c \<and> c \<le> 70 then Some (c - 55)
      else None)"

fun int_of_hex :: "nat \<Rightarrow> pystr \<Rightarrow> nat option" where
  "int_of_hex acc [] = Some acc"
| "int_of_hex acc (c # cs) =
     (case hex_val c of None \<Rightarrow> None | Some d \<Rightarrow> int_of_hex (16 * acc + d) cs)"

text \<open>
  \<open>uuid.UUID(hex=h)\<close>: the constructor removes \<open>urn:\<close>, \<open>uuid:\<close>, braces and hyphens,
  requires 32 characters and reads them in base 16.
\<close>

function py_replace :: "pystr \<Rightarrow> pystr \<Rightarrow> pystr \<Rightarrow> pystr" where
  "py_replace old new [] = []"
| "py_replace old new (c # cs) =
     (if old \<noteq> [] \<and> take (length old) (c # cs) = old
      then new @ py_replace old new (drop (length old) (c # cs))
      else c # py_replace old new cs)"
  by pat_completeness auto
termination
  by (relation "measure (\<lambda>(old, new, s). length s)") auto

definition py_strip :: "nat set \<Rightarrow> pystr \<Rightarrow> pystr" where
  "py_strip cs s = rev (dropWhile (\<lambda>c. c \<in> cs) (rev (dropWhile (\<lambda>c. c \<in> cs) s)))"

definition uuid_of_hex :: "pystr \<Rightarrow> error + nat" where
  "uuid_of_hex h =
     (let h1 = py_replace (ascii ''uuid:'') [] (py_replace (ascii ''urn:'') [] h);
          h2 = py_replace (ascii ''-'') [] (py_strip {123, 125} h1)
      in if length h2 \<noteq> 32 then Inl ValueError
         else (case int_of_hex 0 h2 of
                 None \<Rightarrow> Inl ValueError
               | Some n \<Rightarrow> if n < 2 ^ 128 then Inr n else Inl ValueError))"

text \<open>\<open>str(u)\<close>: \<open>'%032x' % u.int\<close>, cut into groups of 8, 4, 4, 4 and 12 digits.\<close>

function hex_digits :: "nat \<Rightarrow> nat list" where
  "hex_digits n = (if n < 16 then [n] else hex_digits (n div 16) @ [n mod 16])"
  by pat_completeness auto
termination
  by (relation "measure id") auto

definition hex32 :: "nat \<Rightarrow> pystr" where
  "hex32 n = (let ds = hex_digits n in map hex_char (replicate (32 - length ds) 0 @ ds))"

definition hyphenate :: "pystr \<Rightarrow> pystr" where
  "hyphenate h =
     take 8 h @ [45] @ take 4 (drop 8 h) @ [45] @ take 4 (drop 12 h) @ [45]
       @ take 4 (drop 16 h) @ [45] @ drop 20 h"

definition uuid_str :: "nat \<Rightarrow> pystr" where
  "uuid_str n = hyphenate (hex32 n)"

section \<open>Point identifiers\<close>

text \<open>
  \<open>generate_uuid\<close> of the source: \<open>raw = f"{mid}-{alias}"\<close>, then
  \<open>str(uuid.UUID(hex=hashlib.md5(raw.encode('utf-8')).hexdigest()))\<close>.
\<close>

definition raw_key :: "(pyval \<Rightarrow> pystr) \<Rightarrow> pyval \<Rightarrow> pyval \<Rightarrow> pystr" where
  "raw_key rp mid alias = py_format rp mid @ ascii ''-'' @ py_format rp alias"

definition generate_uuid :: "(pyval \<Rightarrow> pystr) \<Rightarrow> pyval \<Rightarrow> pyval \<Rightarrow> error + pystr" where
  "generate_uuid rp mid alias =
     (case utf8_encode (raw_key rp mid alias) of
        Inl e \<Rightarrow> Inl e
      | Inr bs \<Rightarrow>
          (case uuid_of_hex (hexdigest (md5_digest bs)) of
             Inl e \<Rightarrow> Inl e
           | Inr u \<Rightarrow> Inr (uuid_str u)))"

text \<open>
  The reference definition, in the words of the specification: the digest of the UTF-8
  bytes of \<open>"{mid}-{alias}"\<close>, its 16 octets read as a UUID in the canonical text form.
\<close>

definition uuid_of_octets :: "byte list \<Rightarrow> pystr" where
  "uuid_of_octets bs =
     hexdigest (take 4 bs) @ [45] @ hexdigest (take 2 (drop 4 bs)) @ [45]
       @ hexdigest (take 2 (drop 6 bs)) @ [45] @ hexdigest (take 2 (drop 8 bs)) @ [45]
       @ hexdigest (drop 10 bs)"

definition derive :: "(pyval \<Rightarrow> pystr) \<Rightarrow> pyval \<Rightarrow> pyval \<Rightarrow> error + pystr" where
  "derive rp mid alias =
     (case utf8_encode (raw_key rp mid alias) of
        Inl e \<Rightarrow> Inl e
      | Inr bs \<Rightarrow> Inr (uuid_of_octets (md5_digest bs)))"

section \<open>The services the program talks to\<close>

text \<open>
  A \<open>requests\<close> response, as far as the program reads it: the status code, and the value
  \<open>resp.json()\<close> returns (\<open>None\<close> when the body is not JSON and \<open>resp.json()\<close> raises).
\<close>

record response =
  status_code :: int
  json_body :: "pyval option"

text \<open>\<open>models.PointStruct\<close>: identifier, vector and payload of a point.\<close>

record point =
  point_id :: pystr
  vector :: pyval
  payload :: "(pystr \<times> pyval) list"

datatype distance = Cosine | Euclid | Dot | Manhattan

text \<open>The lines the program prints.\<close>

datatype log_line =
    Creating_collection
  | Embedding_error
  | Api_error pyval int
  | Fetching_music_list
  | Failed_to_fetch int
  | Error_parsing error
  | Found_songs nat
  | Indexed_song pyval nat
  | Error_indexing pyval error
  | Complete nat

text \<open>
  What the program does to the outside: the calls it makes, in order.  An \<open>Upsert\<close>
  records whether the call returned (\<open>True\<close>) or raised.
\<close>

datatype event =
    Get pystr
  | Post pystr pyval
  | Collection_exists pystr
  | Create_collection pystr nat distance
  | Upsert pystr "point list" bool
  | Print log_line

text \<open>
  The outside world has a state \<open>'w\<close> that every call may read and change; a call
  returns a value or raises.  Some parts of the libraries are parameters as well:
  \<open>repr\<close> of floats, lists and dicts, \<open>list.sort\<close> on lists that are not all integers or
  all strings, the validation \<open>PointStruct\<close> applies to its vector, and the value it
  keeps of a vector that passes (the model class converts while it validates: an integer
  in a list of numbers becomes a float).
\<close>

record 'w env =
  py_repr :: "pyval \<Rightarrow> pystr"
  py_sort_other :: "pyval list \<Rightarrow> error + pyval list"
  vector_valid :: "pyval \<Rightarrow> bool"
  vector_kept :: "pyval \<Rightarrow> pyval"
  http_get :: "pystr \<Rightarrow> 'w \<Rightarrow> (error + response) \<times> 'w"
  http_post :: "pystr \<Rightarrow> pyval \<Rightarrow> 'w \<Rightarrow> (error + response) \<times> 'w"
  qdrant_collection_exists :: "pystr \<Rightarrow> 'w \<Rightarrow> (error + bool) \<times> 'w"
  qdrant_create_collection :: "pystr \<Rightarrow> nat \<Rightarrow> distance \<Rightarrow> 'w \<Rightarrow> (error + unit) \<times> 'w"
  qdrant_upsert :: "pystr \<Rightarrow> point list \<Rightarrow> 'w \<Rightarrow> (error + unit) \<times> 'w"

record 'w run_state =
  world :: 'w
  trace :: "event list"

definition emit :: "event \<Rightarrow> 'w run_state \<Rightarrow> 'w run_state" where
  "emit e s = s\<lparr>trace := trace s @ [e]\<rparr>"

definition print :: "log_line \<Rightarrow> 'w run_state \<Rightarrow> 'w run_state" where
  "print l s = emit (Print l) s"

definition requests_get ::
  "'w env \<Rightarrow> pystr \<Rightarrow> 'w run_state \<Rightarrow> (error + response) \<times> 'w run_state" where
  "requests_get env url s =
     (case http_get env url (world s) of (r, w) \<Rightarrow> (r, emit (Get url) (s\<lparr>world := w\<rparr>)))"

definition requests_post ::
  "'w env \<Rightarrow> pystr \<Rightarrow> pyval \<Rightarrow> 'w run_state \<Rightarrow> (error + response) \<times> 'w run_state" where
  "requests_post env url body s =
     (case http_post env url body (world s) of
        (r, w) \<Rightarrow> (r, emit (Post url body) (s\<lparr>world := w\<rparr>)))"

definition client_collection_exists ::
  "'w env \<Rightarrow> pystr \<Rightarrow> 'w run_state \<Rightarrow> (error + bool) \<times> 'w run_state" where
  "client_collection_exists env name s =
     (case qdrant_collection_exists env name (world s) of
        (r, w) \<Rightarrow> (r, emit (Collection_exists name) (s\<lparr>world := w\<rparr>)))"

definition client_create_collection ::
  "'w env \<Rightarrow> pystr \<Rightarrow> nat \<Rightarrow> distance \<Rightarrow> 'w run_state \<Rightarrow> (error + unit) \<times> 'w run_state" where
  "client_create_collection env name dim dist s =
     (case qdrant_create_collection env name dim dist (world s) of
        (r, w) \<Rightarrow> (r, emit (Create_collection name dim dist) (s\<lparr>world := w\<rparr>)))"

definition client_upsert ::
  "'w env \<Rightarrow> pystr \<Rightarrow> point list \<Rightarrow> 'w run_state \<Rightarrow> (error + unit) \<times> 'w run_state" where
  "client_upsert env name points s =
     (case qdrant_upsert env name points (world s) of
        (r, w) \<Rightarrow> (r, emit (Upsert name points (\<not> isl r)) (s\<lparr>world := w\<rparr>)))"

subsection \<open>Operations on JSON values\<close>

definition resp_json :: "response \<Rightarrow> error + pyval" where
  "resp_json r = (case json_body r of None \<Rightarrow> Inl JSONDecodeError | Some v \<Rightarrow> Inr v)"

text \<open>\<open>obj.get(key, default)\<close>: only a dict has the method.\<close>

fun dict_get :: "pyval \<Rightarrow> pystr \<Rightarrow> pyval \<Rightarrow> error + pyval" where
  "dict_get (PDict kvs) k d = Inr (case map_of kvs k of None \<Rightarrow> d | Some v \<Rightarrow> v)"
| "dict_get v k d = Inl AttributeError"

text \<open>\<open>obj[0]\<close>.  The keys of a JSON object are strings, so \<open>0\<close> is never among them.\<close>

fun subscript_0 :: "pyval \<Rightarrow> error + pyval" where
  "subscript_0 (PList []) = Inl IndexError"
| "subscript_0 (PList (x # xs)) = Inr x"
| "subscript_0 (PStr []) = Inl IndexError"
| "subscript_0 (PStr (c # cs)) = Inr (PStr [c])"
| "subscript_0 (PDict kvs) = Inl KeyError"
| "subscript_0 v = Inl TypeError"

text \<open>\<open>obj[key]\<close> for a string \<open>key\<close>.\<close>

fun subscript_str :: "pyval \<Rightarrow> pystr \<Rightarrow> error + pyval" where
  "subscript_str (PDict kvs) k = (case map_of kvs k of None \<Rightarrow> Inl KeyError | Some v \<Rightarrow> Inr v)"
| "subscript_str v k = Inl TypeError"

fun is_substring :: "pystr \<Rightarrow> pystr \<Rightarrow> bool" where
  "is_substring k [] = (k = [])"
| "is_substring k (c # cs) = (take (length k) (c # cs) = k \<or> is_substring k cs)"

text \<open>\<open>key in obj\<close> for a string \<open>key\<close>.\<close>

fun contains_str :: "pyval \<Rightarrow> pystr \<Rightarrow> error + bool" where
  "contains_str (PDict kvs) k = Inr (map_of kvs k \<noteq> None)"
| "contains_str (PList xs) k = Inr (PStr k \<in> set xs)"
| "contains_str (PStr s) k = Inr (is_substring k s)"
| "contains_str v k = Inl TypeError"

text \<open>The items a \<open>for\<close> loop visits.\<close>

fun py_iter :: "pyval \<Rightarrow> error + pyval list" where
  "py_iter (PList xs) = Inr xs"
| "py_iter (PStr s) = Inr (map (\<lambda>c. PStr [c]) s)"
| "py_iter (PDict kvs) = Inr (map (\<lambda>kv. PStr (fst kv)) kvs)"
| "py_iter v = Inl TypeError"

fun is_int :: "pyval \<Rightarrow> bool" where
  "is_int (PInt i) = True"
| "is_int v = False"

fun is_str :: "pyval \<Rightarrow> bool" where
  "is_str (PStr s) = True"
| "is_str v = False"

fun int_of :: "pyval \<Rightarrow> int" where
  "int_of (PInt i) = i"
| "int_of v = 0"

fun str_of :: "pyval \<Rightarrow> pystr" where
  "str_of (PStr s) = s"
| "str_of v = []"

text \<open>
  \<open>ids.sort()\<close>: ascending and stable; integers by value, strings by code points.
\<close>

definition py_sort :: "'w env \<Rightarrow> pyval list \<Rightarrow> error + pyval list" where
  "py_sort env xs =
     (if list_all is_int xs then Inr (sort_key int_of xs)
      else if list_all is_str xs then Inr (sort_key str_of xs)
      else py_sort_other env xs)"

section \<open>The program\<close>

subsection \<open>Configuration\<close>

definition HARUKI_API_BASE :: pystr where
  "HARUKI_API_BASE = ascii ''https://public-api.haruki.seiunx.com/alias/v1/music''"

definition SILICONFLOW_API_URL :: pystr where
  "SILICONFLOW_API_URL = ascii ''https://api.siliconflow.cn/v1/embeddings''"

definition SILICONFLOW_MODEL :: pystr where
  "SILICONFLOW_MODEL = ascii ''BAAI/bge-m3''"

definition COLLECTION_NAME :: pystr where
  "COLLECTION_NAME = ascii ''song_aliases''"

definition VECTOR_SIZE :: nat where
  "VECTOR_SIZE = 1024"

definition MUSICS_JSON_URL :: pystr where
  "MUSICS_JSON_URL = ascii
     ''https://raw.githubusercontent.com/Team-Haruki/haruki-sekai-master/main/master/musics.json''"

subsection \<open>Ensuring the collection (module level)\<close>

definition ensure_collection :: "'w env \<Rightarrow> 'w run_state \<Rightarrow> (error + unit) \<times> 'w run_state" where
  "ensure_collection env s =
     (case client_collection_exists env COLLECTION_NAME s of
        (Inl e, s1) \<Rightarrow> (Inl e, s1)
      | (Inr present, s1) \<Rightarrow>
          if \<not> present
          then client_create_collection env COLLECTION_NAME VECTOR_SIZE Cosine
                 (print Creating_collection s1)
          else (Inr (), s1))"

subsection \<open>\<open>get_embedding\<close>\<close>

definition embedding_request :: "pyval \<Rightarrow> pyval" where
  "embedding_request text =
     PDict [(ascii ''model'', PStr SILICONFLOW_MODEL), (ascii ''input'', text)]"

text \<open>
  The last three lines of \<open>get_embedding\<close>: \<open>None\<close> when \<open>json_resp.get("data")\<close> is
  false, else \<open>json_resp["data"][0]["embedding"]\<close>.
\<close>

definition read_embedding :: "pyval \<Rightarrow> error + pyval" where
  "read_embedding json_resp =
     (case dict_get json_resp (ascii ''data'') PNone of
        Inl e \<Rightarrow> Inl e
      | Inr d \<Rightarrow>
          if \<not> truthy d then Inr PNone
          else (case subscript_str json_resp (ascii ''data'') of
                  Inl e \<Rightarrow> Inl e
                | Inr d' \<Rightarrow>
                    (case subscript_0 d' of
                       Inl e \<Rightarrow> Inl e
                     | Inr first \<Rightarrow> subscript_str first (ascii ''embedding''))))"

definition get_embedding ::
  "'w env \<Rightarrow> pyval \<Rightarrow> 'w run_state \<Rightarrow> (error + pyval) \<times> 'w run_state" where
  "get_embedding env text s =
     (case requests_post env SILICONFLOW_API_URL (embedding_request text) s of
        (Inl e, s1) \<Rightarrow> (Inl e, s1)
      | (Inr resp, s1) \<Rightarrow>
          if status_code resp \<noteq> 200 then (Inr PNone, print Embedding_error s1)
          else (case resp_json resp of
                  Inl e \<Rightarrow> (Inl e, s1)
                | Inr json_resp \<Rightarrow> (read_embedding json_resp, s1)))"

subsection \<open>\<open>index_song\<close>\<close>

definition alias_url :: "'w env \<Rightarrow> pyval \<Rightarrow> pystr" where
  "alias_url env mid = HARUKI_API_BASE @ ascii ''/'' @ py_format (py_repr env) mid"

definition point_payload :: "pyval \<Rightarrow> pyval \<Rightarrow> (pystr \<times> pyval) list" where
  "point_payload mid alias =
     [(ascii ''mid'', mid), (ascii ''alias'', alias), (ascii ''source'', PStr (ascii ''haruki''))]"

text \<open>
  The constructor validates the vector and keeps the validated value; identifier and
  payload always pass, as they are.
\<close>

definition PointStruct ::
  "'w env \<Rightarrow> pystr \<Rightarrow> pyval \<Rightarrow> (pystr \<times> pyval) list \<Rightarrow> error + point" where
  "PointStruct env pid vec pl =
     (if vector_valid env vec
      then Inr \<lparr>point_id = pid, vector = vector_kept env vec, payload = pl\<rparr>
      else Inl ValidationError)"

text \<open>The loop over the aliases; \<open>points\<close> is the list built so far.\<close>

fun collect_points ::
  "'w env \<Rightarrow> pyval \<Rightarrow> pyval list \<Rightarrow> point list \<Rightarrow> 'w run_state
     \<Rightarrow> (error + point list) \<times> 'w run_state" where
  "collect_points env mid [] points s = (Inr points, s)"
| "collect_points env mid (alias # rest) points s =
     (case get_embedding env alias s of
        (Inl e, s1) \<Rightarrow> (Inl e, s1)
      | (Inr vec, s1) \<Rightarrow>
          if \<not> truthy vec then collect_points env mid rest points s1
          else (case generate_uuid (py_repr env) mid alias of
                  Inl e \<Rightarrow> (Inl e, s1)
                | Inr pid \<Rightarrow>
                    (case PointStruct env pid vec (point_payload mid alias) of
                       Inl e \<Rightarrow> (Inl e, s1)
                     | Inr p \<Rightarrow> collect_points env mid rest (points @ [p]) s1)))"

text \<open>\<open>data = resp.json(); aliases = data.get("aliases", [])\<close>.\<close>

definition read_aliases :: "response \<Rightarrow> error + pyval" where
  "read_aliases resp =
     (case resp_json resp of
        Inl e \<Rightarrow> Inl e
      | Inr data \<Rightarrow> dict_get data (ascii ''aliases'') (PList []))"

definition upsert_points ::
  "'w env \<Rightarrow> point list \<Rightarrow> 'w run_state \<Rightarrow> (error + nat) \<times> 'w run_state" where
  "upsert_points env points s =
     (if points \<noteq> []
      then (case client_upsert env COLLECTION_NAME points s of
              (Inl e, s1) \<Rightarrow> (Inl e, s1)
            | (Inr u, s1) \<Rightarrow> (Inr (length points), s1))
      else (Inr (length points), s))"

definition index_song ::
  "'w env \<Rightarrow> pyval \<Rightarrow> 'w run_state \<Rightarrow> (error + nat) \<times> 'w run_state" where
  "index_song env mid s =
     (case requests_get env (alias_url env mid) s of
        (Inl e, s1) \<Rightarrow> (Inl e, s1)
      | (Inr resp, s1) \<Rightarrow>
          if status_code resp = 404 then (Inr 0, s1)
          else if status_code resp \<noteq> 200
          then (Inr 0, print (Api_error mid (status_code resp)) s1)
          else (case read_aliases resp of
                  Inl e \<Rightarrow> (Inl e, s1)
                | Inr aliases \<Rightarrow>
                    if \<not> truthy aliases then (Inr 0, s1)
                    else (case py_iter aliases of
                            Inl e \<Rightarrow> (Inl e, s1)
                          | Inr items \<Rightarrow>
                              (case collect_points env mid items [] s1 of
                                 (Inl e, s2) \<Rightarrow> (Inl e, s2)
                               | (Inr points, s2) \<Rightarrow> upsert_points env points s2))))"

subsection \<open>\<open>fetch_music_ids\<close>\<close>

text \<open>\<open>[item['id'] for item in musics if 'id' in item]\<close>.\<close>

fun collect_ids :: "pyval list \<Rightarrow> error + pyval list" where
  "collect_ids [] = Inr []"
| "collect_ids (item # items) =
     (case contains_str item (ascii ''id'') of
        Inl e \<Rightarrow> Inl e
      | Inr has_id \<Rightarrow>
          if has_id
          then (case subscript_str item (ascii ''id'') of
                  Inl e \<Rightarrow> Inl e
                | Inr v \<Rightarrow> (case collect_ids items of Inl e \<Rightarrow> Inl e | Inr vs \<Rightarrow> Inr (v # vs)))
          else collect_ids items)"

text \<open>The body of the \<open>try\<close>.\<close>

definition parse_ids :: "'w env \<Rightarrow> response \<Rightarrow> error + pyval list" where
  "parse_ids env resp =
     (case resp_json resp of
        Inl e \<Rightarrow> Inl e
      | Inr musics \<Rightarrow>
          (case py_iter musics of
             Inl e \<Rightarrow> Inl e
           | Inr items \<Rightarrow>
               (case collect_ids items of Inl e \<Rightarrow> Inl e | Inr ids \<Rightarrow> py_sort env ids)))"

definition fetch_music_ids ::
  "'w env \<Rightarrow> 'w run_state \<Rightarrow> (error + pyval list) \<times> 'w run_state" where
  "fetch_music_ids env s =
     (case requests_get env MUSICS_JSON_URL (print Fetching_music_list s) of
        (Inl e, s1) \<Rightarrow> (Inl e, s1)
      | (Inr resp, s1) \<Rightarrow>
          if status_code resp \<noteq> 200
          then (Inr [], print (Failed_to_fetch (status_code resp)) s1)
          else (case parse_ids env resp of
                  Inl e \<Rightarrow> (Inr [], print (Error_parsing e) s1)
                | Inr ids \<Rightarrow> (Inr ids, s1)))"

subsection \<open>\<open>main\<close>\<close>

text \<open>The loop of \<open>main\<close>, with \<open>tot\<close> for \<open>total\<close>; \<open>except Exception\<close> catches whatever \<open>index_song\<close> raises.\<close>

fun index_all :: "'w env \<Rightarrow> pyval list \<Rightarrow> nat \<Rightarrow> 'w run_state \<Rightarrow> nat \<times> 'w run_state" where
  "index_all env [] tot s = (tot, s)"
| "index_all env (i # ids) tot s =
     (case index_song env i s of
        (Inr count, s1) \<Rightarrow>
          if count > 0
          then index_all env ids (tot + count) (print (Indexed_song i count) s1)
          else index_all env ids tot s1
      | (Inl e, s1) \<Rightarrow> index_all env ids tot (print (Error_indexing i e) s1))"

definition main :: "'w env \<Rightarrow> 'w run_state \<Rightarrow> (error + nat) \<times> 'w run_state" where
  "main env s =
     (case fetch_music_ids env s of
        (Inl e, s1) \<Rightarrow> (Inl e, s1)
      | (Inr ids, s1) \<Rightarrow>
          (case index_all env ids 0 (print (Found_songs (length ids)) s1) of
             (tot, s2) \<Rightarrow> (Inr tot, print (Complete tot) s2)))"

text \<open>One run of the script: the module level, then \<open>main\<close>.\<close>

definition script :: "'w env \<Rightarrow> 'w run_state \<Rightarrow> (error + nat) \<times> 'w run_state" where
  "script env s =
     (case ensure_collection env s of
        (Inl e, s1) \<Rightarrow> (Inl e, s1)
      | (Inr u, s1) \<Rightarrow> main env s1)"

section \<open>Reading a trace\<close>

fun get_of :: "event \<Rightarrow> pystr list" where
  "get_of (Get url) = [url]"
| "get_of e = []"

fun post_of :: "event \<Rightarrow> pyval list" where
  "post_of (Post url body) = [body]"
| "post_of e = []"

fun upsert_of :: "event \<Rightarrow> (point list \<times> bool) list" where
  "upsert_of (Upsert name ps ok) = [(ps, ok)]"
| "upsert_of e = []"

fun create_of :: "event \<Rightarrow> (pystr \<times> nat \<times> distance) list" where
  "create_of (Create_collection name dim dist) = [(name, dim, dist)]"
| "create_of e = []"

definition gets :: "event list \<Rightarrow> pystr list" where
  "gets evs = concat (map get_of evs)"

definition posts :: "event list \<Rightarrow> pyval list" where
  "posts evs = concat (map post_of evs)"

definition upserts :: "event list \<Rightarrow> (point list \<times> bool) list" where
  "upserts evs = concat (map upsert_of evs)"

definition creates :: "event list \<Rightarrow> (pystr \<times> nat \<times> distance) list" where
  "creates evs = concat (map create_of evs)"

text \<open>The number of points written by the upserts that returned.\<close>

definition upserted :: "event list \<Rightarrow> nat" where
  "upserted evs = sum_list (map (\<lambda>u. if snd u then length (fst u) else 0) (upserts evs))"

text \<open>The points handed to \<open>upsert\<close>, whether the call returned or not.\<close>

definition submitted :: "event list \<Rightarrow> point list" where
  "submitted evs = concat (map fst (upserts evs))"

section \<open>A small world to run the program in\<close>

text \<open>
  Track 7 has the two aliases of the scenario, every other track is unknown (404); the
  track list names 99 and 7 and has an item without an id.  The world is the list of the
  collections that exist.  The embedding service is the parameter \<open>emb\<close>.  Its vectors
  are lists of floats, which \<open>PointStruct\<close> keeps as they are.
\<close>

definition demo_musics :: pyval where
  "demo_musics =
     PList [PDict [(ascii ''id'', PInt 99)],
            PDict [(ascii ''title'', PStr (ascii ''x''))],
            PDict [(ascii ''id'', PInt 7), (ascii ''title'', PStr (ascii ''Tell Your World''))]]"

definition demo_aliases :: pyval where
  "demo_aliases =
     PDict [(ascii ''aliases'', PList [PStr (ascii ''Tell Your World''), PStr (ascii ''TYW'')])]"

definition ok_response :: "pyval \<Rightarrow> response" where
  "ok_response v = \<lparr>status_code = 200, json_body = Some v\<rparr>"

definition demo_vector :: pyval where
  "demo_vector = PList [PFloat 0x3FD0000000000000, PFloat 0x3FE0000000000000]"

definition good_embedding :: "pyval \<Rightarrow> response" where
  "good_embedding body =
     ok_response (PDict [(ascii ''data'', PList [PDict [(ascii ''embedding'', demo_vector)]])])"

definition demo_get :: "pystr \<Rightarrow> response" where
  "demo_get url =
     (if url = MUSICS_JSON_URL then ok_response demo_musics
      else if url = HARUKI_API_BASE @ ascii ''/7'' then ok_response demo_aliases
      else \<lparr>status_code = 404, json_body = None\<rparr>)"

definition demo_env :: "(pyval \<Rightarrow> response) \<Rightarrow> (pystr list) env" where
  "demo_env emb =
     \<lparr>py_repr = (\<lambda>v. []),
      py_sort_other = (\<lambda>xs. Inl TypeError),
      vector_valid = (\<lambda>v. case v of PList xs \<Rightarrow> True | _ \<Rightarrow> False),
      vector_kept = (\<lambda>v. v),
      http_get = (\<lambda>url w. (Inr (demo_get url), w)),
      http_post = (\<lambda>url body w. (Inr (emb body), w)),
      qdrant_collection_exists = (\<lambda>name w. (Inr (name \<in> set w), w)),
      qdrant_create_collection = (\<lambda>name dim dist w. (Inr (), name # w)),
      qdrant_upsert = (\<lambda>name ps w. (Inr (), w))\<rparr>"

definition start :: "pystr list run_state" where
  "start = \<lparr>world = [], trace = []\<rparr>"

section \<open>Auxiliary definitions for the proofs\<close>

text \<open>The value of a list of hexadecimal digits, most significant first.\<close>

definition base16 :: "nat \<Rightarrow> nat list \<Rightarrow> nat" where
  "base16 acc ds = foldl (\<lambda>a d. 16 * a + d) acc ds"

text \<open>The UTF-8 bytes of \<open>"7-TYW"\<close> and of \<open>"7-Tell Your World"\<close>.\<close>

definition key_tyw :: "byte list" where
  "key_tyw = [0x37, 0x2d, 0x54, 0x59, 0x57]"

definition key_tell :: "byte list" where
  "key_tell = [0x37, 0x2d, 0x54, 0x65, 0x6c, 0x6c, 0x20, 0x59, 0x6f, 0x75, 0x72, 0x20, 0x57, 0x6f, 0x72,
     0x6c, 0x64]"

text \<open>
  Reading UTF-8 back: the number of code units a first unit announces, and the code point
  a group of units stands for.
\<close>

definition unit_count :: "nat \<Rightarrow> nat" where
  "unit_count b = (if b < 0x80 then 1 else if b < 0xE0 then 2 else if b < 0xF0 then 3 else 4)"

fun unit_value :: "nat list \<Rightarrow> nat" where
  "unit_value [a] = a"
| "unit_value [a, b] = 64 * (a - 0xC0) + (b - 0x80)"
| "unit_value [a, b, c] = 4096 * (a - 0xE0) + 64 * (b - 0x80) + (c - 0x80)"
| "unit_value [a, b, c, d] = 262144 * (a - 0xF0) + 4096 * (b - 0x80) + 64 * (c - 0x80) + (d - 0x80)"
| "unit_value us = 0"

text \<open>The two points of track 7 in the small world.\<close>

definition demo_points :: "point list" where
  "demo_points =
     [\<lparr>point_id = ascii ''f7f316c5-6d9c-8b73-66dc-81c2b4a02ba5'', vector = demo_vector,
       payload = [(ascii ''mid'', PInt 7), (ascii ''alias'', PStr (ascii ''Tell Your World'')),
                  (ascii ''source'', PStr (ascii ''haruki''))]\<rparr>,
      \<lparr>point_id = ascii ''da8389d9-68fc-479d-f2f3-c8be14bbb3d5'', vector = demo_vector,
       payload = [(ascii ''mid'', PInt 7), (ascii ''alias'', PStr (ascii ''TYW'')),
                  (ascii ''source'', PStr (ascii ''haruki''))]\<rparr>]"

text \<open>The \<open>data\<close> member of a response body, when the body is a JSON object that has one.\<close>

definition data_of :: "response \<Rightarrow> pyval option" where
  "data_of resp =
     (case json_body resp of Some (PDict kvs) \<Rightarrow> map_of kvs (ascii ''data'') | _ \<Rightarrow> None)"

text \<open>
  The \<open>embedding\<close> of the first element of \<open>data\<close>, when \<open>data\<close> is a list whose first
  element is an object that has one.
\<close>

definition first_embedding :: "response \<Rightarrow> pyval option" where
  "first_embedding resp =
     (case data_of resp of
        Some (PList (PDict first # rest)) \<Rightarrow> map_of first (ascii ''embedding'')
      | _ \<Rightarrow> None)"

text \<open>The \<open>id\<close> field of an item of the track list, if it has one.\<close>

fun id_field :: "pyval \<Rightarrow> pyval list" where
  "id_field (PDict kvs) = (case map_of kvs (ascii ''id'') of None \<Rightarrow> [] | Some v \<Rightarrow> [v])"
| "id_field v = []"

fun is_dict :: "pyval \<Rightarrow> bool" where
  "is_dict (PDict kvs) = True"
| "is_dict v = False"

text \<open>
  An answer whose body is a JSON object with \<open>data\<close> absent or false (\<open>null\<close>, an empty
  list, string or object, zero).
\<close>

definition no_data :: "response \<Rightarrow> bool" where
  "no_data resp =
     (case json_body resp of
        Some (PDict kvs) \<Rightarrow>
          (case map_of kvs (ascii ''data'') of None \<Rightarrow> True | Some d \<Rightarrow> \<not> truthy d)
      | _ \<Rightarrow> False)"

text \<open>A vector of the configured dimension: a list of 1024 numbers.\<close>

fun is_number :: "pyval \<Rightarrow> bool" where
  "is_number (PInt i) = True"
| "is_number (PFloat x) = True"
| "is_number v = False"

fun vec1024 :: "pyval \<Rightarrow> bool" where
  "vec1024 (PList xs) = (length xs = VECTOR_SIZE \<and> list_all is_number xs)"
| "vec1024 v = False"

text \<open>
  Other embedding services for the small world: one that answers 500, one whose 200 answer
  is not JSON, one whose embedding is \<open>null\<close>, two that fail on the first alias of track 7
  only (with a body that is not JSON, with a status 500), and one that returns vectors of
  the configured dimension.
\<close>

definition failing_embedding :: "pyval \<Rightarrow> response" where
  "failing_embedding body = \<lparr>status_code = 500, json_body = None\<rparr>"

definition unparsable_embedding :: "pyval \<Rightarrow> response" where
  "unparsable_embedding body = \<lparr>status_code = 200, json_body = None\<rparr>"

definition null_embedding :: "pyval \<Rightarrow> response" where
  "null_embedding body =
     ok_response (PDict [(ascii ''data'', PList [PDict [(ascii ''embedding'', PNone)]])])"



definition big_vector :: pyval where
  "big_vector = PList (replicate 1024 (PFloat 0x3FD0000000000000))"

definition big_embedding :: "pyval \<Rightarrow> response" where
  "big_embedding body =
     ok_response (PDict [(ascii ''data'', PList [PDict [(ascii ''embedding'', big_vector)]])])"

text \<open>A world in which every GET is answered 404, the track list included.\<close>

definition offline_env :: "(pystr list) env" where
  "offline_env =
     (demo_env good_embedding)
       \<lparr>http_get := (\<lambda>url w. (Inr \<lparr>status_code = 404, json_body = None\<rparr>, w))\<rparr>"

text \<open>
  The calls of \<open>get_embedding\<close> for the aliases of a list, one after the other and
  whatever they return: the results, and the state after the last call.
\<close>

fun embed_each ::
  "'w env \<Rightarrow> pyval list \<Rightarrow> 'w run_state \<Rightarrow> (error + pyval) list \<times> 'w run_state" where
  "embed_each env [] s = ([], s)"
| "embed_each env (a # rest) s =
     (case get_embedding env a s of
        (r, s1) \<Rightarrow> (case embed_each env rest s1 of (rs, s2) \<Rightarrow> (r # rs, s2)))"

text \<open>
  The aliases that got an embedding, each with its embedding: of the aliases \<open>items\<close> and
  the values \<open>vs\<close> returned for them, the pairs whose value is true (not \<open>None\<close>, not empty).
\<close>

definition embedded :: "pyval list \<Rightarrow> pyval list \<Rightarrow> (pyval \<times> pyval) list" where
  "embedded items vs = filter (\<lambda>av. truthy (snd av)) (zip items vs)"

text \<open>
  The point of an alias and its embedding: the identifier \<open>ident\<close> gives for the alias,
  the embedding as the constructor keeps it, and the payload.
\<close>

definition point_of :: "'w env \<Rightarrow> pyval \<Rightarrow> (pyval \<Rightarrow> pystr) \<Rightarrow> pyval \<times> pyval \<Rightarrow> point" where
  "point_of env mid ident av =
     \<lparr>point_id = ident (fst av), vector = vector_kept env (snd av),
      payload = [(ascii ''mid'', mid), (ascii ''alias'', fst av),
                 (ascii ''source'', PStr (ascii ''haruki''))]\<rparr>"

text \<open>An embedding service whose 200 answer has an empty \<open>data\<close>.\<close>

definition empty_embedding :: "pyval \<Rightarrow> response" where
  "empty_embedding body = ok_response (PDict [(ascii ''data'', PList [])])"

text \<open>The two points of track 7 when the service returns vectors of the configured dimension.\<close>

definition big_points :: "point list" where
  "big_points = map (\<lambda>p. p\<lparr>vector := big_vector\<rparr>) demo_points"

text \<open>The identifiers of the two aliases of track 7.\<close>

definition demo_ident :: "pyval \<Rightarrow> pystr" where
  "demo_ident a =
     (if a = PStr (ascii ''TYW'') then ascii ''da8389d9-68fc-479d-f2f3-c8be14bbb3d5''
      else ascii ''f7f316c5-6d9c-8b73-66dc-81c2b4a02ba5'')"

text \<open>A world in which every track is known and has an empty list of aliases.\<close>

definition bare_env :: "(pystr list) env" where
  "bare_env =
     (demo_env good_embedding)
       \<lparr>http_get := (\<lambda>url w. (Inr (ok_response (PDict [(ascii ''aliases'', PList [])])), w))\<rparr>"

section \<open>Digests, hexadecimal text and UUIDs\<close>

declare dec_digits.simps [simp del] hex_digits.simps [simp del] py_replace.simps [simp del]

lemma length_word_bytes: "length (word_bytes w) = 4"
  by (simp add: word_bytes_def)

lemma length_state_bytes: "length (state_bytes st) = 16"
  by (cases st) (simp add: state_bytes_def length_word_bytes)

lemma length_md5_digest: "length (md5_digest bs) = 16"
  by (simp add: md5_digest_def length_state_bytes)

lemma length_nibbles: "length (nibbles bs) = 2 * length bs"
  by (induction bs) (simp_all add: nibbles_def)

lemma nibbles_lt: "d \<in> set (nibbles bs) \<Longrightarrow> d < 16"
proof (induction bs)
  case Nil
  then show ?case by (simp add: nibbles_def)
next
  case (Cons b bs)
  have "unat b < 256" using unsigned_less [of b] by simp
  then have "unat b div 16 < 16" by simp
  with Cons show ?case by (auto simp: nibbles_def)
qed

lemma nibbles_take: "nibbles (take k bs) = take (2 * k) (nibbles bs)"
proof (induction bs arbitrary: k)
  case Nil
  then show ?case by (simp add: nibbles_def)
next
  case (Cons b bs)
  show ?case
  proof (cases k)
    case 0
    then show ?thesis by (simp add: nibbles_def)
  next
    case (Suc j)
    with Cons [of j] show ?thesis by (simp add: nibbles_def)
  qed
qed

lemma nibbles_drop: "nibbles (drop k bs) = drop (2 * k) (nibbles bs)"
proof (induction bs arbitrary: k)
  case Nil
  then show ?case by (simp add: nibbles_def)
next
  case (Cons b bs)
  show ?case
  proof (cases k)
    case 0
    then show ?thesis by (simp add: nibbles_def)
  next
    case (Suc j)
    with Cons [of j] show ?thesis by (simp add: nibbles_def)
  qed
qed

lemma hexdigest_take: "hexdigest (take k bs) = take (2 * k) (hexdigest bs)"
  by (simp add: hexdigest_def nibbles_take take_map)

lemma hexdigest_drop: "hexdigest (drop k bs) = drop (2 * k) (hexdigest bs)"
  by (simp add: hexdigest_def nibbles_drop drop_map)

lemma uuid_of_octets_hyphenate: "uuid_of_octets bs = hyphenate (hexdigest bs)"
  by (simp add: uuid_of_octets_def hyphenate_def hexdigest_take hexdigest_drop)

lemma hex_val_hex_char: "d < 16 \<Longrightarrow> hex_val (hex_char d) = Some d"
  by (auto simp: hex_val_def hex_char_def)

lemma hex_char_range: "d < 16 \<Longrightarrow> hex_char d \<in> {48..57} \<union> {97..102}"
  by (auto simp: hex_char_def)

lemma hex_char_inj: "d < 16 \<Longrightarrow> d' < 16 \<Longrightarrow> hex_char d = hex_char d' \<Longrightarrow> d = d'"
  by (auto simp: hex_char_def split: if_splits)

lemma int_of_hex_digits:
  "\<forall>d \<in> set ds. d < 16 \<Longrightarrow> int_of_hex acc (map hex_char ds) = Some (base16 acc ds)"
  by (induction ds arbitrary: acc) (simp_all add: base16_def hex_val_hex_char)

lemma base16_snoc: "base16 acc (ds @ [d]) = 16 * base16 acc ds + d"
  by (simp add: base16_def)

lemma base16_bound:
  "\<forall>d \<in> set ds. d < 16 \<Longrightarrow> base16 0 ds < 16 ^ length ds"
proof (induction ds rule: rev_induct)
  case Nil
  then show ?case by (simp add: base16_def)
next
  case (snoc d ds)
  then have "base16 0 ds < 16 ^ length ds" and "d < 16" by simp_all
  then have "16 * base16 0 ds + d < 16 * 16 ^ length ds" by arith
  then show ?case by (simp add: base16_snoc)
qed

lemma base16_zero:
  "base16 0 ds = 0 \<Longrightarrow> ds = replicate (length ds) 0"
proof (induction ds rule: rev_induct)
  case Nil
  then show ?case by simp
next
  case (snoc d ds)
  then have "16 * base16 0 ds + d = 0" by (simp add: base16_snoc)
  then have z: "base16 0 ds = 0" and d: "d = 0" by simp_all
  from z have e: "ds = replicate (length ds) 0" by (rule snoc.IH)
  have "replicate (length (ds @ [d])) 0 = replicate (length ds) 0 @ [0::nat]"
    by (simp add: replicate_append_same)
  also have "\<dots> = ds @ [d]" using e d by (metis (no_types))
  finally show ?case by simp
qed

lemma hex_digits_step:
  "0 < v \<Longrightarrow> d < 16 \<Longrightarrow> hex_digits (16 * v + d) = hex_digits v @ [d]"
  by (subst hex_digits.simps) simp

lemma hex_digits_small: "d < 16 \<Longrightarrow> hex_digits d = [d]"
  by (subst hex_digits.simps) simp

lemma length_hex_digits_le:
  "\<forall>d \<in> set ds. d < 16 \<Longrightarrow> ds \<noteq> [] \<Longrightarrow> length (hex_digits (base16 0 ds)) \<le> length ds"
proof (induction ds rule: rev_induct)
  case Nil
  then show ?case by simp
next
  case (snoc d ds)
  then have d: "d < 16" by simp
  show ?case
  proof (cases "base16 0 ds = 0")
    case True
    with d show ?thesis by (simp add: base16_snoc hex_digits_small)
  next
    case False
    then have "ds \<noteq> []" by (auto simp: base16_def)
    with snoc have "length (hex_digits (base16 0 ds)) \<le> length ds" by simp
    with False d show ?thesis by (simp add: base16_snoc hex_digits_step)
  qed
qed

lemma zfill_hex_digits:
  "\<forall>d \<in> set ds. d < 16 \<Longrightarrow> ds \<noteq> [] \<Longrightarrow>
   replicate (length ds - length (hex_digits (base16 0 ds))) 0 @ hex_digits (base16 0 ds) = ds"
proof (induction ds rule: rev_induct)
  case Nil
  then show ?case by simp
next
  case (snoc d ds)
  then have d: "d < 16" and ds: "\<forall>d \<in> set ds. d < 16" by simp_all
  show ?case
  proof (cases "base16 0 ds = 0")
    case True
    then have "ds = replicate (length ds) 0" by (rule base16_zero)
    then have "replicate (length ds) 0 @ [d] = ds @ [d]" by simp
    with True d show ?thesis by (simp add: base16_snoc hex_digits_small)
  next
    case False
    then have ne: "ds \<noteq> []" by (auto simp: base16_def)
    have le: "length (hex_digits (base16 0 ds)) \<le> length ds"
      using ds ne by (rule length_hex_digits_le)
    have "replicate (length ds - length (hex_digits (base16 0 ds))) 0 @ hex_digits (base16 0 ds) = ds"
      using snoc.IH ds ne by simp
    with False d le show ?thesis
      by (simp add: base16_snoc hex_digits_step Suc_diff_le)
  qed
qed

lemma hex32_base16:
  assumes "\<forall>d \<in> set ds. d < 16" and "length ds = 32"
  shows "hex32 (base16 0 ds) = map hex_char ds"
proof -
  from assms have "ds \<noteq> []" by auto
  with assms(1) have "replicate (length ds - length (hex_digits (base16 0 ds))) 0
      @ hex_digits (base16 0 ds) = ds"
    by (rule zfill_hex_digits)
  then have "map hex_char (replicate (length ds - length (hex_digits (base16 0 ds))) 0
      @ hex_digits (base16 0 ds)) = map hex_char ds"
    by (rule arg_cong)
  then show ?thesis unfolding hex32_def Let_def assms(2) .
qed

lemma py_replace_absent:
  "x \<in> set old \<Longrightarrow> x \<notin> set s \<Longrightarrow> py_replace old new s = s"
proof (induction s)
  case Nil
  then show ?case by (simp add: py_replace.simps)
next
  case (Cons c cs)
  have "take (length old) (c # cs) \<noteq> old"
  proof
    assume "take (length old) (c # cs) = old"
    then have "set old \<subseteq> set (c # cs)" by (metis set_take_subset)
    with Cons.prems show False by auto
  qed
  with Cons show ?case by (simp add: py_replace.simps)
qed

lemma dropWhile_none: "\<forall>c \<in> set xs. \<not> P c \<Longrightarrow> dropWhile P xs = xs"
  by (cases xs) simp_all

lemma py_strip_absent:
  assumes "\<forall>c \<in> set s. c \<notin> cs"
  shows "py_strip cs s = s"
proof -
  have 1: "dropWhile (\<lambda>c. c \<in> cs) s = s"
    using assms by (intro dropWhile_none) simp
  have 2: "dropWhile (\<lambda>c. c \<in> cs) (rev s) = rev s"
    using assms by (intro dropWhile_none) simp
  show ?thesis by (simp add: py_strip_def 1 2)
qed

lemma hexdigest_chars: "c \<in> set (hexdigest bs) \<Longrightarrow> c \<in> {48..57} \<union> {97..102}"
  using hex_char_range nibbles_lt by (fastforce simp: hexdigest_def)

lemma uuid_of_hex_hexdigest:
  assumes "length bs = 16"
  shows "uuid_of_hex (hexdigest bs) = Inr (base16 0 (nibbles bs))"
proof -
  let ?h = "hexdigest bs"
  have chars: "\<forall>c \<in> set ?h. c \<in> {48..57} \<union> {97..102}"
    using hexdigest_chars by blast
  have "58 \<notin> set ?h" using chars by force
  moreover have "58 \<in> set (ascii ''urn:'')" and "58 \<in> set (ascii ''uuid:'')"
    by (simp_all add: ascii_def)
  ultimately have r1: "py_replace (ascii ''uuid:'') [] (py_replace (ascii ''urn:'') [] ?h) = ?h"
    by (simp add: py_replace_absent)
  have "\<forall>c \<in> set ?h. c \<notin> {123, 125}" using chars by force
  then have r2: "py_strip {123, 125} ?h = ?h" by (rule py_strip_absent)
  have "45 \<notin> set ?h" using chars by force
  moreover have "45 \<in> set (ascii ''-'')" by (simp add: ascii_def)
  ultimately have r3: "py_replace (ascii ''-'') [] ?h = ?h" by (simp add: py_replace_absent)
  have len: "length ?h = 32" using assms by (simp add: hexdigest_def length_nibbles)
  have lt: "\<forall>d \<in> set (nibbles bs). d < 16" using nibbles_lt by blast
  then have val: "int_of_hex 0 ?h = Some (base16 0 (nibbles bs))"
    unfolding hexdigest_def by (rule int_of_hex_digits)
  have "base16 0 (nibbles bs) < 16 ^ length (nibbles bs)" using lt by (rule base16_bound)
  also have "\<dots> = 2 ^ 128" using assms by (simp add: length_nibbles)
  finally have "base16 0 (nibbles bs) < 2 ^ 128" .
  with r1 r2 r3 len val show ?thesis by (simp add: uuid_of_hex_def Let_def)
qed

lemma uuid_str_hexdigest:
  assumes "length bs = 16"
  shows "uuid_str (base16 0 (nibbles bs)) = uuid_of_octets bs"
proof -
  have "\<forall>d \<in> set (nibbles bs). d < 16" using nibbles_lt by blast
  moreover have "length (nibbles bs) = 32" using assms by (simp add: length_nibbles)
  ultimately have "hex32 (base16 0 (nibbles bs)) = map hex_char (nibbles bs)"
    by (rule hex32_base16)
  then show ?thesis by (simp add: uuid_str_def uuid_of_octets_hyphenate hexdigest_def)
qed

lemma generate_uuid_derive: "generate_uuid rp mid alias = derive rp mid alias"
  by (simp add: generate_uuid_def derive_def uuid_of_hex_hexdigest uuid_str_hexdigest
      length_md5_digest split: sum.splits)

section \<open>Two digests, computed\<close>

lemma replicate_numeral: "replicate (numeral k) x = x # replicate (pred_numeral k) x"
  by (simp only: numeral_eq_Suc replicate.simps)

lemma le_bytes_numeral:
  "le_bytes (numeral k) v = of_nat (v mod 256) # le_bytes (pred_numeral k) (v div 256)"
  by (simp only: numeral_eq_Suc le_bytes.simps)

lemma utf8_tyw:
  "utf8_encode (raw_key rp (PInt 7) (PStr (ascii ''TYW''))) = Inr key_tyw"
  by (simp add: utf8_encode_def raw_key_def ascii_def str_int_def dec_digits.simps
      utf8_units_def key_tyw_def)

lemma pad_tyw:
  "chunks 64 (md5_pad key_tyw) =
    [[0x37, 0x2d, 0x54, 0x59, 0x57, 0x80, 0x00, 0x00, 0x00, 0x00, 0x00, 0x00, 0x00, 0x00, 0x00,
     0x00, 0x00, 0x00, 0x00, 0x00, 0x00, 0x00, 0x00, 0x00, 0x00, 0x00, 0x00, 0x00, 0x00,
     0x00, 0x00, 0x00, 0x00, 0x00, 0x00, 0x00, 0x00, 0x00, 0x00, 0x00, 0x00, 0x00, 0x00,
     0x00, 0x00, 0x00, 0x00, 0x00, 0x00, 0x00, 0x00, 0x00, 0x00, 0x00, 0x00, 0x00, 0x28,
     0x00, 0x00, 0x00, 0x00, 0x00, 0x00, 0x00]]"
  by (simp add: md5_pad_def key_tyw_def replicate_numeral le_bytes_numeral)

lemma words_tyw:
  "map le_word32 (chunks 4
     [0x37, 0x2d, 0x54, 0x59, 0x57, 0x80, 0x00, 0x00, 0x00, 0x00, 0x00, 0x00, 0x00, 0x00, 0x00,
     0x00, 0x00, 0x00, 0x00, 0x00, 0x00, 0x00, 0x00, 0x00, 0x00, 0x00, 0x00, 0x00, 0x00,
     0x00, 0x00, 0x00, 0x00, 0x00, 0x00, 0x00, 0x00, 0x00, 0x00, 0x00, 0x00, 0x00, 0x00,
     0x00, 0x00, 0x00, 0x00, 0x00, 0x00, 0x00, 0x00, 0x00, 0x00, 0x00, 0x00, 0x00, 0x28,
     0x00, 0x00, 0x00, 0x00, 0x00, 0x00, 0x00]) =
     [0x59542d37, 0x00008057, 0x00000000, 0x00000000, 0x00000000, 0x00000000, 0x00000000,
     0x00000000, 0x00000000, 0x00000000, 0x00000000, 0x00000000, 0x00000000, 0x00000000,
     0x00000028, 0x00000000]"
  by simp

lemma rounds_tyw:
  "foldl (md5_round
     [0x59542d37, 0x00008057, 0x00000000, 0x00000000, 0x00000000, 0x00000000, 0x00000000,
     0x00000000, 0x00000000, 0x00000000, 0x00000000, 0x00000000, 0x00000000, 0x00000000,
     0x00000028, 0x00000000])
     md5_init [0..<64] = (0x724460d9, 0xad7a50df, 0x260e16f4, 0xc581669e)"
  by (simp add: md5_init_def md5_F_def md5_g_def md5_K_def md5_s_def rotl32_def upt_rec)

lemma md5_tyw: "md5 key_tyw = (0xd98983da, 0x9d47fc68, 0xbec8f3f2, 0xd5b3bb14)"
  unfolding md5_def pad_tyw
  by (simp add: md5_block_def words_tyw rounds_tyw) (simp add: md5_init_def)

lemma uuid_tyw:
  "uuid_of_octets (md5_digest key_tyw) = ascii ''da8389d9-68fc-479d-f2f3-c8be14bbb3d5''"
  by (simp add: md5_digest_def md5_tyw state_bytes_def word_bytes_def uuid_of_octets_def
      hexdigest_def nibbles_def hex_char_def ascii_def)

lemma utf8_tell:
  "utf8_encode (raw_key rp (PInt 7) (PStr (ascii ''Tell Your World''))) = Inr key_tell"
  by (simp add: utf8_encode_def raw_key_def ascii_def str_int_def dec_digits.simps
      utf8_units_def key_tell_def)

lemma pad_tell:
  "chunks 64 (md5_pad key_tell) =
    [[0x37, 0x2d, 0x54, 0x65, 0x6c, 0x6c, 0x20, 0x59, 0x6f, 0x75, 0x72, 0x20, 0x57, 0x6f, 0x72,
     0x6c, 0x64, 0x80, 0x00, 0x00, 0x00, 0x00, 0x00, 0x00, 0x00, 0x00, 0x00, 0x00, 0x00,
     0x00, 0x00, 0x00, 0x00, 0x00, 0x00, 0x00, 0x00, 0x00, 0x00, 0x00, 0x00, 0x00, 0x00,
     0x00, 0x00, 0x00, 0x00, 0x00, 0x00, 0x00, 0x00, 0x00, 0x00, 0x00, 0x00, 0x00, 0x88,
     0x00, 0x00, 0x00, 0x00, 0x00, 0x00, 0x00]]"
  by (simp add: md5_pad_def key_tell_def replicate_numeral le_bytes_numeral)

lemma words_tell:
  "map le_word32 (chunks 4
     [0x37, 0x2d, 0x54, 0x65, 0x6c, 0x6c, 0x20, 0x59, 0x6f, 0x75, 0x72, 0x20, 0x57, 0x6f, 0x72,
     0x6c, 0x64, 0x80, 0x00, 0x00, 0x00, 0x00, 0x00, 0x00, 0x00, 0x00, 0x00, 0x00, 0x00,
     0x00, 0x00, 0x00, 0x00, 0x00, 0x00, 0x00, 0x00, 0x00, 0x00, 0x00, 0x00, 0x00, 0x00,
     0x00, 0x00, 0x00, 0x00, 0x00, 0x00, 0x00, 0x00, 0x00, 0x00, 0x00, 0x00, 0x00, 0x88,
     0x00, 0x00, 0x00, 0x00, 0x00, 0x00, 0x00]) =
     [0x65542d37, 0x59206c6c, 0x2072756f, 0x6c726f57, 0x00008064, 0x00000000, 0x00000000,
     0x00000000, 0x00000000, 0x00000000, 0x00000000, 0x00000000, 0x00000000, 0x00000000,
     0x00000088, 0x00000000]"
  by simp

lemma rounds_tell:
  "foldl (md5_round
     [0x65542d37, 0x59206c6c, 0x2072756f, 0x6c726f57, 0x00008064, 0x00000000, 0x00000000,
     0x00000000, 0x00000000, 0x00000000, 0x00000000, 0x00000000, 0x00000000, 0x00000000,
     0x00000088, 0x00000000])
     md5_init [0..<64] = (0x5dd1d0f6, 0x83bdf0e4, 0x29c6ff68, 0x94f94c3e)"
  by (simp add: md5_init_def md5_F_def md5_g_def md5_K_def md5_s_def rotl32_def upt_rec)

lemma md5_tell: "md5 key_tell = (0xc516f3f7, 0x738b9c6d, 0xc281dc66, 0xa52ba0b4)"
  unfolding md5_def pad_tell
  by (simp add: md5_block_def words_tell rounds_tell) (simp add: md5_init_def)

lemma uuid_tell:
  "uuid_of_octets (md5_digest key_tell) = ascii ''f7f316c5-6d9c-8b73-66dc-81c2b4a02ba5''"
  by (simp add: md5_digest_def md5_tell state_bytes_def word_bytes_def uuid_of_octets_def
      hexdigest_def nibbles_def hex_char_def ascii_def)

lemma utf8_nat_Some_iff: "utf8_nat s \<noteq> None \<longleftrightarrow> encodable s"
  by (induction s) (auto simp: encodable_def utf8_units_def split: option.splits)

lemma utf8_encode_encodable: "encodable s \<Longrightarrow> \<exists>bs. utf8_encode s = Inr bs"
  using utf8_nat_Some_iff [of s] by (auto simp: utf8_encode_def split: option.splits)

lemma utf8_encode_surrogate: "\<not> encodable s \<Longrightarrow> utf8_encode s = Inl UnicodeEncodeError"
  using utf8_nat_Some_iff [of s] by (auto simp: utf8_encode_def split: option.splits)

lemma length_hexdigest: "length (hexdigest bs) = 2 * length bs"
  by (simp add: hexdigest_def length_nibbles)

lemma length_uuid_of_octets: "length bs = 16 \<Longrightarrow> length (uuid_of_octets bs) = 36"
  by (simp add: uuid_of_octets_def length_hexdigest)

section \<open>The point identifier\<close>

text \<open>
  Claim C1.  \<open>generate_uuid\<close> reads no state and changes none: it is a function of \<open>mid\<close>
  and \<open>alias\<close> (and of \<open>repr\<close>, for values that are not strings or integers), so equal
  arguments give equal results.  It equals the reference definition \<open>derive\<close> on every
  input, and it is total over well-formed strings: whenever \<open>"{mid}-{alias}"\<close> is one
  (it holds no lone surrogate, so it has UTF-8 bytes), the function returns an
  identifier, of 36 characters.
\<close>

theorem generate_uuid_reference:
  "generate_uuid rp mid alias = derive rp mid alias
   \<and> (encodable (raw_key rp mid alias) \<longrightarrow>
        (\<exists>u. generate_uuid rp mid alias = Inr u \<and> length u = 36))"
proof (intro conjI impI)
  show "generate_uuid rp mid alias = derive rp mid alias"
    by (rule generate_uuid_derive)
next
  assume "encodable (raw_key rp mid alias)"
  then obtain bs where "utf8_encode (raw_key rp mid alias) = Inr bs"
    using utf8_encode_encodable by blast
  then show "\<exists>u. generate_uuid rp mid alias = Inr u \<and> length u = 36"
    by (simp add: generate_uuid_derive derive_def length_uuid_of_octets length_md5_digest)
qed

text \<open>The identifier of track 7 and alias \<open>TYW\<close>, computed.\<close>

theorem generate_uuid_reference_witness:
  "encodable (raw_key (\<lambda>v. []) (PInt 7) (PStr (ascii ''TYW'')))
   \<and> generate_uuid (\<lambda>v. []) (PInt 7) (PStr (ascii ''TYW''))
       = Inr (ascii ''da8389d9-68fc-479d-f2f3-c8be14bbb3d5'')
   \<and> (\<exists>u. generate_uuid (\<lambda>v. []) (PInt 7) (PStr (ascii ''TYW'')) = Inr u \<and> length u = 36)"
proof -
  have e: "encodable (raw_key (\<lambda>v. []) (PInt 7) (PStr (ascii ''TYW'')))"
    by (simp add: encodable_def raw_key_def ascii_def str_int_def dec_digits.simps)
  note t = generate_uuid_reference [of "\<lambda>v. []" "PInt 7" "PStr (ascii ''TYW'')"]
  from t have "generate_uuid (\<lambda>v. []) (PInt 7) (PStr (ascii ''TYW''))
      = derive (\<lambda>v. []) (PInt 7) (PStr (ascii ''TYW''))"
    by blast
  then have "generate_uuid (\<lambda>v. []) (PInt 7) (PStr (ascii ''TYW''))
      = Inr (ascii ''da8389d9-68fc-479d-f2f3-c8be14bbb3d5'')"
    by (simp add: derive_def utf8_tyw uuid_tyw)
  moreover from t e
  have "\<exists>u. generate_uuid (\<lambda>v. []) (PInt 7) (PStr (ascii ''TYW'')) = Inr u \<and> length u = 36"
    by blast
  ultimately show ?thesis using e by blast
qed

text \<open>
  Outside the well-formed strings the encoding step raises: an alias that is a lone
  surrogate (which \<open>json.loads\<close> can produce) gets no identifier.
\<close>

lemma generate_uuid_lone_surrogate:
  "generate_uuid (\<lambda>v. []) (PInt 7) (PStr [0xD800]) = Inl UnicodeEncodeError"
  by (simp add: generate_uuid_def utf8_encode_def raw_key_def utf8_units_def str_int_def
      dec_digits.simps ascii_def)

section \<open>Encoding and rendering lose nothing\<close>

lemma utf8_units_length:
  "utf8_units c = Some us \<Longrightarrow> us \<noteq> [] \<and> length us = unit_count (hd us)"
  by (auto simp: utf8_units_def unit_count_def split: if_splits)

lemma join3: "(c::nat) = 64 * a + r \<Longrightarrow> a = 64 * b + q \<Longrightarrow> c = 4096 * b + 64 * q + r"
  by simp

lemma join4:
  "(c::nat) = 4096 * b + 64 * q + r \<Longrightarrow> b = 64 * e + p \<Longrightarrow> c = 262144 * e + 4096 * p + 64 * q + r"
  by simp

lemma split3: "(c::nat) = 4096 * (c div 4096) + 64 * (c div 64 mod 64) + c mod 64"
proof (rule join3)
  show "c = 64 * (c div 64) + c mod 64" by simp
  have "c div 64 div 64 = c div 4096" by (simp add: div_mult2_eq [symmetric])
  then show "c div 64 = 64 * (c div 4096) + c div 64 mod 64"
    using mult_div_mod_eq [of 64 "c div 64"] by simp
qed

lemma split4:
  "(c::nat) = 262144 * (c div 262144) + 4096 * (c div 4096 mod 64) + 64 * (c div 64 mod 64)
     + c mod 64"
proof (rule join4)
  show "c = 4096 * (c div 4096) + 64 * (c div 64 mod 64) + c mod 64" by (rule split3)
  have "c div 4096 div 64 = c div 262144" by (simp add: div_mult2_eq [symmetric])
  then show "c div 4096 = 64 * (c div 262144) + c div 4096 mod 64"
    using mult_div_mod_eq [of 64 "c div 4096"] by simp
qed

lemma utf8_units_value:
  assumes "utf8_units c = Some us"
  shows "unit_value us = c"
proof -
  consider (one) "us = [c]"
    | (two) "us = [0xC0 + c div 64, 0x80 + c mod 64]"
    | (three) "us = [0xE0 + c div 4096, 0x80 + c div 64 mod 64, 0x80 + c mod 64]"
    | (four) "us = [0xF0 + c div 262144, 0x80 + c div 4096 mod 64, 0x80 + c div 64 mod 64,
                    0x80 + c mod 64]"
    using assms by (auto simp: utf8_units_def split: if_splits)
  then show ?thesis
  proof cases
    case one
    then show ?thesis by simp
  next
    case two
    then show ?thesis by simp
  next
    case three
    then have "unit_value us = 4096 * (c div 4096) + 64 * (c div 64 mod 64) + c mod 64"
      by (simp only: unit_value.simps add_diff_cancel_left')
    then show ?thesis using split3 [of c] by (simp only:)
  next
    case four
    then have "unit_value us = 262144 * (c div 262144) + 4096 * (c div 4096 mod 64)
        + 64 * (c div 64 mod 64) + c mod 64"
      by (simp only: unit_value.simps add_diff_cancel_left')
    then show ?thesis using split4 [of c] by (simp only:)
  qed
qed

lemma utf8_units_byte: "utf8_units c = Some us \<Longrightarrow> u \<in> set us \<Longrightarrow> u < 256"
  by (auto simp: utf8_units_def split: if_splits)

lemma utf8_units_prefix_free:
  assumes "utf8_units c = Some us" and "utf8_units c' = Some us'" and "us @ r = us' @ r'"
  shows "c = c' \<and> r = r'"
proof -
  from assms(1) have 1: "us \<noteq> []" "length us = unit_count (hd us)"
    using utf8_units_length by blast+
  from assms(2) have 2: "us' \<noteq> []" "length us' = unit_count (hd us')"
    using utf8_units_length by blast+
  from assms(3) 1(1) 2(1) have "hd us = hd us'" by (metis hd_append2)
  with 1 2 have "length us = length us'" by simp
  with assms(3) have "us = us'" and "r = r'" by simp_all
  with assms(1,2) show ?thesis using utf8_units_value by metis
qed

lemma utf8_nat_inj: "utf8_nat s = Some bs \<Longrightarrow> utf8_nat s' = Some bs \<Longrightarrow> s = s'"
proof (induction s arbitrary: s' bs)
  case Nil
  then show ?case
    using utf8_units_length by (cases s') (auto split: option.splits)
next
  case (Cons c cs)
  from Cons.prems(1) obtain us r where
    c: "utf8_units c = Some us" "utf8_nat cs = Some r" "bs = us @ r"
    by (auto split: option.splits)
  show ?case
  proof (cases s')
    case Nil
    with Cons.prems(2) c show ?thesis using utf8_units_length by fastforce
  next
    case (Cons c' cs')
    with Cons.prems(2) obtain us' r' where
      c': "utf8_units c' = Some us'" "utf8_nat cs' = Some r'" "bs = us' @ r'"
      by (auto split: option.splits)
    from c(1) c'(1) c(3) c'(3) have "c = c' \<and> r = r'"
      using utf8_units_prefix_free by metis
    with Cons.IH c(2) c'(2) Cons show ?thesis by simp
  qed
qed

lemma utf8_nat_byte: "utf8_nat s = Some bs \<Longrightarrow> u \<in> set bs \<Longrightarrow> u < 256"
proof (induction s arbitrary: bs)
  case Nil
  then show ?case by simp
next
  case (Cons c cs)
  then show ?case using utf8_units_byte by (fastforce split: option.splits)
qed

lemma of_nat_byte_inj:
  "a < 256 \<Longrightarrow> b < 256 \<Longrightarrow> (of_nat a :: byte) = of_nat b \<Longrightarrow> a = b"
proof -
  assume a: "a < 256" and b: "b < 256" and e: "(of_nat a :: byte) = of_nat b"
  from e have "unat (of_nat a :: byte) = unat (of_nat b :: byte)" by simp
  with a b show ?thesis by (simp add: unat_of_nat)
qed

lemma map_of_nat_byte_inj:
  "\<forall>u \<in> set xs. u < 256 \<Longrightarrow> \<forall>u \<in> set ys. u < 256 \<Longrightarrow>
   map of_nat xs = (map of_nat ys :: byte list) \<Longrightarrow> xs = ys"
proof (induction xs arbitrary: ys)
  case Nil
  then show ?case by simp
next
  case (Cons x xs)
  then obtain y ys' where ys: "ys = y # ys'" by (cases ys) auto
  with Cons.prems have "x = y" using of_nat_byte_inj by auto
  moreover from Cons ys have "xs = ys'" by auto
  ultimately show ?case using ys by simp
qed

lemma utf8_encode_inj: "utf8_encode s = Inr bs \<Longrightarrow> utf8_encode s' = Inr bs \<Longrightarrow> s = s'"
proof -
  assume 1: "utf8_encode s = Inr bs" and 2: "utf8_encode s' = Inr bs"
  from 1 obtain us where us: "utf8_nat s = Some us" "bs = map of_nat us"
    by (auto simp: utf8_encode_def split: option.splits)
  from 2 obtain us' where us': "utf8_nat s' = Some us'" "bs = map of_nat us'"
    by (auto simp: utf8_encode_def split: option.splits)
  have "us = us'"
  proof (rule map_of_nat_byte_inj)
    show "\<forall>u \<in> set us. u < 256" using us(1) utf8_nat_byte by blast
    show "\<forall>u \<in> set us'. u < 256" using us'(1) utf8_nat_byte by blast
    show "map of_nat us = (map of_nat us' :: byte list)" using us(2) us'(2) by simp
  qed
  with us(1) us'(1) show ?thesis using utf8_nat_inj by blast
qed

lemma le_word32_word_bytes: "le_word32 (word_bytes w) = w"
proof (rule bit_word_eqI)
  fix n
  assume "n < LENGTH(32)"
  then consider "n < 8" | "8 \<le> n" "n < 16" | "16 \<le> n" "n < 24" | "24 \<le> n" "n < 32"
    by fastforce
  then show "bit (le_word32 (word_bytes w)) n = bit w n"
    by cases (auto simp: word_bytes_def bit_simps)
qed

lemma word_bytes_inj: "word_bytes w = word_bytes w' \<Longrightarrow> w = w'"
  by (metis le_word32_word_bytes)

lemma state_bytes_inj: "state_bytes st = state_bytes st' \<Longrightarrow> st = st'"
proof -
  assume e: "state_bytes st = state_bytes st'"
  obtain a b c d where st: "st = (a, b, c, d)" by (cases st)
  obtain a' b' c' d' where st': "st' = (a', b', c', d')" by (cases st')
  from e st st' have "word_bytes a = word_bytes a' \<and> word_bytes b = word_bytes b'
      \<and> word_bytes c = word_bytes c' \<and> word_bytes d = word_bytes d'"
    by (simp add: state_bytes_def length_word_bytes)
  with st st' show ?thesis using word_bytes_inj by blast
qed

lemma nibbles_inj: "nibbles bs = nibbles bs' \<Longrightarrow> bs = bs'"
proof (induction bs arbitrary: bs')
  case Nil
  then show ?case by (cases bs') (simp_all add: nibbles_def)
next
  case (Cons b bs)
  then obtain b' bs'' where bs': "bs' = b' # bs''" by (cases bs') (auto simp: nibbles_def)
  with Cons.prems have d: "unat b div 16 = unat b' div 16" and m: "unat b mod 16 = unat b' mod 16"
    and r: "nibbles bs = nibbles bs''"
    by (simp_all add: nibbles_def)
  from d m have "unat b = unat b'" by (metis div_mult_mod_eq)
  then have "b = b'" by (simp add: word_unat_eq_iff)
  with Cons.IH r bs' show ?case by simp
qed

lemma hexdigest_inj: "hexdigest bs = hexdigest bs' \<Longrightarrow> bs = bs'"
proof -
  assume e: "hexdigest bs = hexdigest bs'"
  have "inj_on hex_char (set (nibbles bs) \<union> set (nibbles bs'))"
    using nibbles_lt hex_char_inj by (intro inj_onI) blast
  with e have "nibbles bs = nibbles bs'"
    by (simp add: hexdigest_def inj_on_map_eq_map)
  then show ?thesis by (rule nibbles_inj)
qed

lemma drop_from_pieces:
  "take k (drop n h) = take k (drop n h') \<Longrightarrow> drop (n + k) h = drop (n + k) h'
   \<Longrightarrow> drop n h = drop n h'"
  by (metis append_take_drop_id drop_drop add.commute)

lemma hyphenate_inj:
  assumes "length h = 32" and "length h' = 32" and "hyphenate h = hyphenate h'"
  shows "h = h'"
proof -
  from assms have p: "take 8 h = take 8 h'" "take 4 (drop 8 h) = take 4 (drop 8 h')"
    "take 4 (drop 12 h) = take 4 (drop 12 h')" "take 4 (drop 16 h) = take 4 (drop 16 h')"
    "drop 20 h = drop 20 h'"
    by (simp_all add: hyphenate_def)
  from p(4,5) have "drop 16 h = drop 16 h'" using drop_from_pieces [of 4 16 h h'] by simp
  with p(3) have "drop 12 h = drop 12 h'" using drop_from_pieces [of 4 12 h h'] by simp
  with p(2) have "drop 8 h = drop 8 h'" using drop_from_pieces [of 4 8 h h'] by simp
  with p(1) show ?thesis by (metis append_take_drop_id)
qed

lemma uuid_of_state_inj:
  assumes "uuid_of_octets (state_bytes st) = uuid_of_octets (state_bytes st')"
  shows "st = st'"
proof -
  have "hexdigest (state_bytes st) = hexdigest (state_bytes st')"
  proof (rule hyphenate_inj)
    show "length (hexdigest (state_bytes st)) = 32"
      by (simp add: length_hexdigest length_state_bytes)
    show "length (hexdigest (state_bytes st')) = 32"
      by (simp add: length_hexdigest length_state_bytes)
    show "hyphenate (hexdigest (state_bytes st)) = hyphenate (hexdigest (state_bytes st'))"
      using assms by (simp add: uuid_of_octets_hyphenate)
  qed
  then show ?thesis using hexdigest_inj state_bytes_inj by blast
qed

lemma generate_uuid_range:
  "generate_uuid rp mid alias \<in>
     insert (Inl UnicodeEncodeError) (range (\<lambda>st. Inr (uuid_of_octets (state_bytes st))))"
  by (auto simp: generate_uuid_derive derive_def md5_digest_def utf8_encode_def
      split: option.splits)

section \<open>Distinct aliases\<close>

text \<open>
  Claim C2, as amended.  For one \<open>mid\<close> and two distinct alias strings whose keys
  \<open>"{mid}-{alias}"\<close> have UTF-8 encodings \<open>b1\<close> and \<open>b2\<close>: the encodings differ, and the two
  identifiers differ exactly when the MD5 states of \<open>b1\<close> and \<open>b2\<close> differ.  The identifiers
  coincide only on an MD5 collision.
\<close>

theorem generate_uuid_distinct:
  assumes "a1 \<noteq> a2"
    and "utf8_encode (raw_key rp mid (PStr a1)) = Inr b1"
    and "utf8_encode (raw_key rp mid (PStr a2)) = Inr b2"
  shows "b1 \<noteq> b2
    \<and> (generate_uuid rp mid (PStr a1) \<noteq> generate_uuid rp mid (PStr a2) \<longleftrightarrow> md5 b1 \<noteq> md5 b2)"
proof
  from assms(1) have "raw_key rp mid (PStr a1) \<noteq> raw_key rp mid (PStr a2)"
    by (simp add: raw_key_def)
  with assms(2,3) show "b1 \<noteq> b2" using utf8_encode_inj by blast
next
  show "generate_uuid rp mid (PStr a1) \<noteq> generate_uuid rp mid (PStr a2) \<longleftrightarrow> md5 b1 \<noteq> md5 b2"
    using assms(2,3) uuid_of_state_inj [of "md5 b1" "md5 b2"]
    by (auto simp: generate_uuid_derive derive_def md5_digest_def)
qed

text \<open>The two aliases of track 7 get different identifiers.\<close>

theorem generate_uuid_distinct_witness:
  "ascii ''Tell Your World'' \<noteq> ascii ''TYW''
   \<and> utf8_encode (raw_key (\<lambda>v. []) (PInt 7) (PStr (ascii ''Tell Your World''))) = Inr key_tell
   \<and> utf8_encode (raw_key (\<lambda>v. []) (PInt 7) (PStr (ascii ''TYW''))) = Inr key_tyw
   \<and> key_tell \<noteq> key_tyw
   \<and> generate_uuid (\<lambda>v. []) (PInt 7) (PStr (ascii ''Tell Your World''))
       \<noteq> generate_uuid (\<lambda>v. []) (PInt 7) (PStr (ascii ''TYW''))"
proof -
  have n: "ascii ''Tell Your World'' \<noteq> ascii ''TYW''" by (simp add: ascii_def)
  have "md5 key_tell \<noteq> md5 key_tyw" by (simp add: md5_tell md5_tyw)
  with generate_uuid_distinct [OF n utf8_tell utf8_tyw] n utf8_tell utf8_tyw
  show ?thesis by blast
qed

text \<open>
  Claim C2 as stated fails: the aliases \<open>a\<close>, \<open>aa\<close>, \<open>aaa\<close>, ... of track 7 are infinitely
  many and the identifiers finitely many, so two of them share an identifier.
\<close>

theorem generate_uuid_collision_counterexample:
  "\<not> (\<forall>a1 a2. a1 \<noteq> a2 \<longrightarrow>
        generate_uuid (\<lambda>v. []) (PInt 7) (PStr a1) \<noteq> generate_uuid (\<lambda>v. []) (PInt 7) (PStr a2))"
proof
  assume all: "\<forall>a1 a2. a1 \<noteq> a2 \<longrightarrow>
      generate_uuid (\<lambda>v. []) (PInt 7) (PStr a1) \<noteq> generate_uuid (\<lambda>v. []) (PInt 7) (PStr a2)"
  let ?f = "\<lambda>n::nat. generate_uuid (\<lambda>v. []) (PInt 7) (PStr (replicate n 97))"
  have "inj ?f"
  proof (rule injI)
    fix n m
    assume e: "?f n = ?f m"
    show "n = m"
    proof (rule ccontr)
      assume "n \<noteq> m"
      then have "replicate n (97::nat) \<noteq> replicate m 97" by (metis length_replicate)
      with all e show False by blast
    qed
  qed
  moreover have "finite (range ?f)"
  proof (rule finite_subset)
    show "range ?f \<subseteq>
        insert (Inl UnicodeEncodeError) (range (\<lambda>st. Inr (uuid_of_octets (state_bytes st))))"
      using generate_uuid_range by blast
    show "finite (insert (Inl UnicodeEncodeError :: error + pystr)
        (range (\<lambda>st. Inr (uuid_of_octets (state_bytes st)))))"
      by simp
  qed
  ultimately have "finite (UNIV :: nat set)" by (rule finite_imageD [rotated])
  then show False by simp
qed

section \<open>What the program adds to the trace\<close>

lemma trace_emit [simp]: "trace (emit e s) = trace s @ [e]"
  by (simp add: emit_def)

lemma world_emit [simp]: "world (emit e s) = world s"
  by (simp add: emit_def)

lemma trace_print [simp]: "trace (print l s) = trace s @ [Print l]"
  by (simp add: print_def)

lemma world_print [simp]: "world (print l s) = world s"
  by (simp add: print_def)

lemma gets_append [simp]: "gets (xs @ ys) = gets xs @ gets ys"
  by (simp add: gets_def)

lemma posts_append [simp]: "posts (xs @ ys) = posts xs @ posts ys"
  by (simp add: posts_def)

lemma upserts_append [simp]: "upserts (xs @ ys) = upserts xs @ upserts ys"
  by (simp add: upserts_def)

lemma creates_append [simp]: "creates (xs @ ys) = creates xs @ creates ys"
  by (simp add: creates_def)

lemma gets_Cons [simp]: "gets (e # es) = get_of e @ gets es"
  by (simp add: gets_def)

lemma posts_Cons [simp]: "posts (e # es) = post_of e @ posts es"
  by (simp add: posts_def)

lemma upserts_Cons [simp]: "upserts (e # es) = upsert_of e @ upserts es"
  by (simp add: upserts_def)

lemma creates_Cons [simp]: "creates (e # es) = create_of e @ creates es"
  by (simp add: creates_def)

lemma gets_Nil [simp]: "gets [] = []"
  by (simp add: gets_def)

lemma posts_Nil [simp]: "posts [] = []"
  by (simp add: posts_def)

lemma upserts_Nil [simp]: "upserts [] = []"
  by (simp add: upserts_def)

lemma creates_Nil [simp]: "creates [] = []"
  by (simp add: creates_def)

lemma upserted_append [simp]: "upserted (xs @ ys) = upserted xs + upserted ys"
  by (simp add: upserted_def)

lemma submitted_append [simp]: "submitted (xs @ ys) = submitted xs @ submitted ys"
  by (simp add: submitted_def)

lemma upserted_quiet: "upserts evs = [] \<Longrightarrow> upserted evs = 0"
  by (simp add: upserted_def)

lemma submitted_quiet: "upserts evs = [] \<Longrightarrow> submitted evs = []"
  by (simp add: submitted_def)

text \<open>What one call adds to the trace.\<close>

lemma requests_get_result:
  "requests_get env url s = (r, s') \<Longrightarrow>
   http_get env url (world s) = (r, world s') \<and> trace s' = trace s @ [Get url]"
  by (auto simp: requests_get_def split: prod.splits)

lemma requests_post_result:
  "requests_post env url body s = (r, s') \<Longrightarrow>
   http_post env url body (world s) = (r, world s') \<and> trace s' = trace s @ [Post url body]"
  by (auto simp: requests_post_def split: prod.splits)

lemma client_collection_exists_result:
  "client_collection_exists env name s = (r, s') \<Longrightarrow>
   qdrant_collection_exists env name (world s) = (r, world s')
   \<and> trace s' = trace s @ [Collection_exists name]"
  by (auto simp: client_collection_exists_def split: prod.splits)

lemma client_create_collection_result:
  "client_create_collection env name dim dist s = (r, s') \<Longrightarrow>
   qdrant_create_collection env name dim dist (world s) = (r, world s')
   \<and> trace s' = trace s @ [Create_collection name dim dist]"
  by (auto simp: client_create_collection_def split: prod.splits)

lemma client_upsert_result:
  "client_upsert env name ps s = (r, s') \<Longrightarrow>
   qdrant_upsert env name ps (world s) = (r, world s')
   \<and> trace s' = trace s @ [Upsert name ps (\<not> isl r)]"
  by (auto simp: client_upsert_def split: prod.splits)

lemma get_embedding_trace:
  assumes "get_embedding env text s = (r, s')"
  shows "trace s' = trace s @ [Post SILICONFLOW_API_URL (embedding_request text)]
       \<or> trace s' = trace s @ [Post SILICONFLOW_API_URL (embedding_request text),
                                Print Embedding_error]"
proof -
  obtain r0 s1 where p: "requests_post env SILICONFLOW_API_URL (embedding_request text) s = (r0, s1)"
    by (cases "requests_post env SILICONFLOW_API_URL (embedding_request text) s")
  then have t: "trace s1 = trace s @ [Post SILICONFLOW_API_URL (embedding_request text)]"
    using requests_post_result by blast
  from assms p have "s' = s1 \<or> s' = print Embedding_error s1"
    by (auto simp: get_embedding_def split: sum.splits if_splits)
  with t show ?thesis by auto
qed

lemma get_embedding_quiet:
  assumes "get_embedding env text s = (r, s')"
  shows "\<exists>evs. trace s' = trace s @ evs \<and> gets evs = [] \<and> upserts evs = [] \<and> creates evs = []
     \<and> posts evs = [embedding_request text]"
  using get_embedding_trace [OF assms] by auto

lemma collect_points_quiet:
  "collect_points env mid items pts s = (r, s') \<Longrightarrow>
   \<exists>evs. trace s' = trace s @ evs \<and> gets evs = [] \<and> upserts evs = [] \<and> creates evs = []"
proof (induction items arbitrary: pts s)
  case Nil
  then show ?case by simp
next
  case (Cons a rest)
  obtain r0 s1 where g: "get_embedding env a s = (r0, s1)"
    by (cases "get_embedding env a s")
  then obtain evs where e: "trace s1 = trace s @ evs" "gets evs = []" "upserts evs = []"
    "creates evs = []"
    using get_embedding_quiet by blast
  from Cons.prems g have "s' = s1 \<or> (\<exists>pts'. collect_points env mid rest pts' s1 = (r, s'))"
    by (auto split: sum.splits if_splits)
  then show ?case
  proof
    assume "s' = s1"
    with e show ?thesis by blast
  next
    assume "\<exists>pts'. collect_points env mid rest pts' s1 = (r, s')"
    then obtain pts' where "collect_points env mid rest pts' s1 = (r, s')" by blast
    then obtain evs' where "trace s' = trace s1 @ evs'" "gets evs' = []" "upserts evs' = []"
      "creates evs' = []"
      using Cons.IH by blast
    with e have "trace s' = trace s @ (evs @ evs') \<and> gets (evs @ evs') = []
        \<and> upserts (evs @ evs') = [] \<and> creates (evs @ evs') = []"
      by simp
    then show ?thesis by blast
  qed
qed

lemma upsert_points_result:
  assumes "upsert_points env ps s = (r, s')"
  shows "(ps = [] \<and> r = Inr 0 \<and> s' = s)
     \<or> (ps \<noteq> [] \<and> trace s' = trace s @ [Upsert COLLECTION_NAME ps (\<not> isl r)]
          \<and> (\<forall>n. r = Inr n \<longrightarrow> n = length ps))"
proof (cases "ps = []")
  case True
  with assms show ?thesis by (simp add: upsert_points_def)
next
  case False
  obtain r0 s1 where u: "client_upsert env COLLECTION_NAME ps s = (r0, s1)"
    by (cases "client_upsert env COLLECTION_NAME ps s")
  then have t: "trace s1 = trace s @ [Upsert COLLECTION_NAME ps (\<not> isl r0)]"
    using client_upsert_result by blast
  from assms False u have "s' = s1" "isl r = isl r0" "\<forall>n. r = Inr n \<longrightarrow> n = length ps"
    by (auto simp: upsert_points_def split: sum.splits)
  with t False show ?thesis by simp
qed

text \<open>
  Everything \<open>index_song\<close> does: one GET, then events among which there is at most one
  upsert, of the points it built.
\<close>

lemma index_song_events:
  assumes "index_song env mid s = (r, s')"
  shows "\<exists>evs. trace s' = trace s @ Get (alias_url env mid) # evs
      \<and> gets evs = [] \<and> creates evs = []
      \<and> ((upserts evs = [] \<and> (r = Inr 0 \<or> isl r))
          \<or> (\<exists>ps items s1 s2. ps \<noteq> [] \<and> upserts evs = [(ps, \<not> isl r)]
                \<and> (\<forall>n. r = Inr n \<longrightarrow> n = length ps)
                \<and> collect_points env mid items [] s1 = (Inr ps, s2)))"
proof -
  obtain r0 s1 where g: "requests_get env (alias_url env mid) s = (r0, s1)"
    by (cases "requests_get env (alias_url env mid) s")
  then have t1: "trace s1 = trace s @ [Get (alias_url env mid)]"
    using requests_get_result by blast
  let ?early = "(s' = s1 \<or> (\<exists>l. s' = print l s1)) \<and> (r = Inr 0 \<or> isl r)"
  from assms g have "?early \<or> (\<exists>items points s2.
      collect_points env mid items [] s1 = (Inr points, s2) \<and> upsert_points env points s2 = (r, s'))
      \<or> (\<exists>items e. collect_points env mid items [] s1 = (Inl e, s') \<and> r = Inl e)"
    by (auto simp: index_song_def split: sum.splits if_splits prod.splits)
  then consider (early) ?early
    | (upsert) items points s2 where "collect_points env mid items [] s1 = (Inr points, s2)"
        "upsert_points env points s2 = (r, s')"
    | (failed) items e where "collect_points env mid items [] s1 = (Inl e, s')" "r = Inl e"
    by blast
  then show ?thesis
  proof cases
    case early
    then have "\<exists>evs. trace s' = trace s1 @ evs \<and> gets evs = [] \<and> creates evs = []
        \<and> upserts evs = []"
      by auto
    with t1 early show ?thesis by auto
  next
    case upsert
    from upsert(1) obtain evs where e: "trace s2 = trace s1 @ evs" "gets evs = []"
      "upserts evs = []" "creates evs = []"
      using collect_points_quiet by blast
    from upsert_points_result [OF upsert(2)] show ?thesis
    proof
      assume "points = [] \<and> r = Inr 0 \<and> s' = s2"
      with e t1 show ?thesis by auto
    next
      assume u: "points \<noteq> [] \<and> trace s' = trace s2 @ [Upsert COLLECTION_NAME points (\<not> isl r)]
          \<and> (\<forall>n. r = Inr n \<longrightarrow> n = length points)"
      let ?evs = "evs @ [Upsert COLLECTION_NAME points (\<not> isl r)]"
      from u e t1 have "trace s' = trace s @ Get (alias_url env mid) # ?evs" by simp
      moreover from e have "gets ?evs = []" "creates ?evs = []"
        "upserts ?evs = [(points, \<not> isl r)]"
        by simp_all
      ultimately show ?thesis using u upsert(1) by blast
    qed
  next
    case failed
    from failed(1) obtain evs where e: "trace s' = trace s1 @ evs" "gets evs = []"
      "upserts evs = []" "creates evs = []"
      using collect_points_quiet by blast
    with t1 failed(2) show ?thesis by auto
  qed
qed

lemma index_song_count:
  assumes "index_song env mid s = (r, s')"
  shows "gets (trace s') = gets (trace s) @ [alias_url env mid]
     \<and> creates (trace s') = creates (trace s)
     \<and> upserted (trace s') = upserted (trace s) + (case r of Inl e \<Rightarrow> 0 | Inr n \<Rightarrow> n)"
proof -
  from index_song_events [OF assms] obtain evs where
    t: "trace s' = trace s @ Get (alias_url env mid) # evs" and q: "gets evs = []" "creates evs = []"
    and u: "(upserts evs = [] \<and> (r = Inr 0 \<or> isl r))
          \<or> (\<exists>ps. ps \<noteq> [] \<and> upserts evs = [(ps, \<not> isl r)]
                \<and> (\<forall>n. r = Inr n \<longrightarrow> n = length ps))"
    by blast
  from u have "upserted evs = (case r of Inl e \<Rightarrow> 0 | Inr n \<Rightarrow> n)"
    by (cases r) (auto simp: upserted_def)
  with t q show ?thesis by (simp add: upserted_def)
qed

lemma index_all_count:
  "index_all env ids tot s = (tot', s') \<Longrightarrow>
   gets (trace s') = gets (trace s) @ map (alias_url env) ids
   \<and> creates (trace s') = creates (trace s)
   \<and> upserted (trace s') + tot = upserted (trace s) + tot'"
proof (induction ids arbitrary: tot s)
  case Nil
  then show ?case by simp
next
  case (Cons i ids)
  obtain r s1 where i: "index_song env i s = (r, s1)"
    by (cases "index_song env i s")
  note c = index_song_count [OF i]
  show ?case
  proof (cases r)
    case (Inl e)
    with Cons.prems i have "index_all env ids tot (print (Error_indexing i e) s1) = (tot', s')"
      by simp
    from Cons.IH [OF this] c Inl show ?thesis by (simp add: upserted_def)
  next
    case (Inr n)
    show ?thesis
    proof (cases "n > 0")
      case True
      with Cons.prems i Inr
      have "index_all env ids (tot + n) (print (Indexed_song i n) s1) = (tot', s')"
        by simp
      from Cons.IH [OF this] c Inr show ?thesis by (simp add: upserted_def)
    next
      case False
      with Cons.prems i Inr have "index_all env ids tot s1 = (tot', s')" by simp
      from Cons.IH [OF this] c Inr False show ?thesis by simp
    qed
  qed
qed

lemma fetch_music_ids_trace:
  assumes "fetch_music_ids env s = (r, s')"
  shows "gets (trace s') = gets (trace s) @ [MUSICS_JSON_URL]
     \<and> creates (trace s') = creates (trace s) \<and> upserts (trace s') = upserts (trace s)"
proof -
  obtain r0 s1 where g: "requests_get env MUSICS_JSON_URL (print Fetching_music_list s) = (r0, s1)"
    by (cases "requests_get env MUSICS_JSON_URL (print Fetching_music_list s)")
  then have t: "trace s1 = trace s @ [Print Fetching_music_list, Get MUSICS_JSON_URL]"
    using requests_get_result by fastforce
  from assms g have "s' = s1 \<or> (\<exists>l. s' = print l s1)"
    by (auto simp: fetch_music_ids_def split: sum.splits if_splits)
  with t show ?thesis by auto
qed

section \<open>The points of a track\<close>

lemma PointStruct_fields:
  "PointStruct env pid vec pl = Inr p \<Longrightarrow>
   vector_valid env vec \<and> p = \<lparr>point_id = pid, vector = vector_kept env vec, payload = pl\<rparr>"
  by (auto simp: PointStruct_def split: if_splits)

lemma embed_each_trace:
  "embed_each env items s = (rs, s') \<Longrightarrow>
   \<exists>evs. trace s' = trace s @ evs \<and> gets evs = [] \<and> upserts evs = [] \<and> creates evs = []
     \<and> posts evs = map embedding_request items"
proof (induction items arbitrary: rs s)
  case Nil
  then show ?case by simp
next
  case (Cons a rest)
  obtain r s1 where g: "get_embedding env a s = (r, s1)"
    by (cases "get_embedding env a s")
  obtain rs1 s2 where e: "embed_each env rest s1 = (rs1, s2)"
    by (cases "embed_each env rest s1")
  from Cons.prems g e have "s' = s2" by simp
  with e have e': "embed_each env rest s1 = (rs1, s')" by simp
  from get_embedding_quiet [OF g] obtain evs where 1: "trace s1 = trace s @ evs" "gets evs = []"
    "upserts evs = []" "creates evs = []" "posts evs = [embedding_request a]"
    by blast
  from Cons.IH [OF e'] obtain evs' where 2: "trace s' = trace s1 @ evs'" "gets evs' = []"
    "upserts evs' = []" "creates evs' = []" "posts evs' = map embedding_request rest"
    by blast
  from 1 2 have "trace s' = trace s @ (evs @ evs') \<and> gets (evs @ evs') = []
      \<and> upserts (evs @ evs') = [] \<and> creates (evs @ evs') = []
      \<and> posts (evs @ evs') = map embedding_request (a # rest)"
    by simp
  then show ?case by blast
qed

text \<open>
  When no call raises and the points can be built, the loop over the aliases returns the
  points of the aliases that got an embedding, in the order of the aliases.
\<close>

lemma collect_points_embedded:
  "embed_each env items s = (map Inr vs, s') \<Longrightarrow>
   \<forall>av \<in> set (embedded items vs). vector_valid env (snd av)
      \<and> generate_uuid (py_repr env) mid (fst av) = Inr (ident (fst av)) \<Longrightarrow>
   collect_points env mid items pts s
     = (Inr (pts @ map (point_of env mid ident) (embedded items vs)), s')"
proof (induction items arbitrary: vs pts s)
  case Nil
  then show ?case by (simp add: embedded_def)
next
  case (Cons a rest)
  obtain r s1 where g: "get_embedding env a s = (r, s1)"
    by (cases "get_embedding env a s")
  obtain rs1 s2 where e: "embed_each env rest s1 = (rs1, s2)"
    by (cases "embed_each env rest s1")
  from Cons.prems(1) g e have m: "r # rs1 = map Inr vs" and s': "s' = s2" by simp_all
  then obtain v vs' where vs: "vs = v # vs'" and r: "r = Inr v" and rs1: "rs1 = map Inr vs'"
    by (cases vs) auto
  from e rs1 s' have e': "embed_each env rest s1 = (map Inr vs', s')" by simp
  have sub: "set (embedded rest vs') \<subseteq> set (embedded (a # rest) vs)"
    by (auto simp: embedded_def vs)
  with Cons.prems(2) have good: "\<forall>av \<in> set (embedded rest vs'). vector_valid env (snd av)
      \<and> generate_uuid (py_repr env) mid (fst av) = Inr (ident (fst av))"
    by blast
  show ?case
  proof (cases "truthy v")
    case False
    then have "embedded (a # rest) vs = embedded rest vs'" by (simp add: embedded_def vs)
    with Cons.IH [OF e' good, of pts] g r False show ?thesis by simp
  next
    case True
    then have x: "embedded (a # rest) vs = (a, v) # embedded rest vs'"
      by (simp add: embedded_def vs)
    with Cons.prems(2) have ok: "vector_valid env v"
      "generate_uuid (py_repr env) mid a = Inr (ident a)"
      by simp_all
    have p: "PointStruct env (ident a) v (point_payload mid a) = Inr (point_of env mid ident (a, v))"
      using ok(1) by (simp add: PointStruct_def point_of_def point_payload_def)
    from Cons.IH [OF e' good, of "pts @ [point_of env mid ident (a, v)]"] g r True ok(2) p x
    show ?thesis by simp
  qed
qed


text \<open>
  A track whose aliases are the list \<open>items\<close>, when no embedding call raises: \<open>index_song\<close>
  upserts the points of the aliases that got an embedding, if there is any.
\<close>

lemma index_song_embedded:
  assumes "requests_get env (alias_url env mid) s = (Inr resp, s1)"
    and "status_code resp = 200"
    and "json_body resp = Some (PDict kvs)"
    and "map_of kvs (ascii ''aliases'') = Some (PList items)"
    and "embed_each env items s1 = (map Inr vs, s2)"
    and "\<forall>av \<in> set (embedded items vs). vector_valid env (snd av)
      \<and> generate_uuid (py_repr env) mid (fst av) = Inr (ident (fst av))"
  shows "index_song env mid s
     = upsert_points env (map (point_of env mid ident) (embedded items vs)) s2"
proof -
  have a: "read_aliases resp = Inr (PList items)"
    using assms(3,4) by (simp add: read_aliases_def resp_json_def)
  show ?thesis
  proof (cases "items = []")
    case True
    with assms(5) have "vs = []" "s2 = s1" by simp_all
    with True a assms(1,2) show ?thesis
      by (simp add: index_song_def upsert_points_def embedded_def)
  next
    case False
    from collect_points_embedded [OF assms(5,6), of "[]"]
    have "collect_points env mid items [] s1
        = (Inr (map (point_of env mid ident) (embedded items vs)), s2)"
      by simp
    with False a assms(1,2) show ?thesis by (simp add: index_song_def)
  qed
qed

lemma index_song_batch:
  assumes "requests_get env (alias_url env mid) s = (Inr resp, s1)"
    and "status_code resp = 200"
    and "json_body resp = Some (PDict kvs)"
    and "map_of kvs (ascii ''aliases'') = Some (PList items)"
    and "embed_each env items s1 = (map Inr vs, s2)"
    and "\<forall>av \<in> set (embedded items vs). vector_valid env (snd av)
      \<and> generate_uuid (py_repr env) mid (fst av) = Inr (ident (fst av))"
    and "index_song env mid s = (r, s')"
  shows "posts (trace s') = posts (trace s) @ map embedding_request items"
    and "upserts (trace s') = upserts (trace s) @
       (if embedded items vs = [] then []
        else [(map (point_of env mid ident) (embedded items vs), \<not> isl r)])"
    and "\<forall>n. r = Inr n \<longrightarrow> n = length (embedded items vs)"
proof -
  let ?ps = "map (point_of env mid ident) (embedded items vs)"
  from index_song_embedded [OF assms(1-6)] assms(7)
  have u: "upsert_points env ?ps s2 = (r, s')" by simp
  from assms(1) have t1: "trace s1 = trace s @ [Get (alias_url env mid)]"
    using requests_get_result by blast
  from embed_each_trace [OF assms(5)] obtain evs where t2: "trace s2 = trace s1 @ evs"
    "upserts evs = []" "posts evs = map embedding_request items"
    by blast
  from upsert_points_result [OF u]
  have c: "(?ps = [] \<and> r = Inr 0 \<and> s' = s2)
     \<or> (?ps \<noteq> [] \<and> trace s' = trace s2 @ [Upsert COLLECTION_NAME ?ps (\<not> isl r)]
          \<and> (\<forall>n. r = Inr n \<longrightarrow> n = length ?ps))" .
  from c t1 t2 show "posts (trace s') = posts (trace s) @ map embedding_request items"
    by auto
  from c t1 t2 show "upserts (trace s') = upserts (trace s) @
       (if embedded items vs = [] then []
        else [(map (point_of env mid ident) (embedded items vs), \<not> isl r)])"
    by auto
  from c show "\<forall>n. r = Inr n \<longrightarrow> n = length (embedded items vs)"
    by auto
qed


text \<open>
  Claim C7.  Whatever the services answer, one call of \<open>index_song\<close> adds at most one
  upsert to the trace, and an upsert it adds carries a non-empty list of points.  It adds
  none when it returns 0; it returns 0 when the metadata answer is not a 200 (a 404
  included) or has no aliases (the field absent or empty).  For a track with a list of
  aliases, when no embedding call raises and the points can be built, the upsert carries
  exactly the points of the aliases that got an embedding, and there is no upsert when
  there is no such alias (no alias at all, or every embedding failed).
\<close>

theorem upsert_once_per_track:
  assumes "index_song env mid s = (r, s')"
  shows "(\<exists>us. upserts (trace s') = upserts (trace s) @ us \<and> length us \<le> 1
            \<and> (\<forall>u \<in> set us. fst u \<noteq> []))
     \<and> (r = Inr 0 \<longrightarrow> upserts (trace s') = upserts (trace s))
     \<and> (requests_get env (alias_url env mid) s = (Inr resp, s1)
          \<and> (status_code resp \<noteq> 200
               \<or> json_body resp = Some (PDict kvs)
                  \<and> (case map_of kvs (ascii ''aliases'') of
                        None \<Rightarrow> True | Some al \<Rightarrow> \<not> truthy al))
        \<longrightarrow> r = Inr 0 \<and> upserts (trace s') = upserts (trace s))
     \<and> (requests_get env (alias_url env mid) s = (Inr resp, s1)
          \<and> status_code resp = 200 \<and> json_body resp = Some (PDict kvs)
          \<and> map_of kvs (ascii ''aliases'') = Some (PList items)
          \<and> embed_each env items s1 = (map Inr vs, s2)
          \<and> (\<forall>av \<in> set (embedded items vs). vector_valid env (snd av)
                \<and> generate_uuid (py_repr env) mid (fst av) = Inr (ident (fst av)))
        \<longrightarrow> upserts (trace s') = upserts (trace s) @
              (if embedded items vs = [] then []
               else [(map (point_of env mid ident) (embedded items vs), \<not> isl r)]))"
proof -
  from index_song_events [OF assms] obtain evs where
    t: "trace s' = trace s @ Get (alias_url env mid) # evs"
    and u: "(upserts evs = [] \<and> (r = Inr 0 \<or> isl r))
          \<or> (\<exists>ps. ps \<noteq> [] \<and> upserts evs = [(ps, \<not> isl r)]
                \<and> (\<forall>n. r = Inr n \<longrightarrow> n = length ps))"
    by blast
  from t have d: "upserts (trace s') = upserts (trace s) @ upserts evs" by simp
  from u have "length (upserts evs) \<le> 1 \<and> (\<forall>u \<in> set (upserts evs). fst u \<noteq> [])"
    by auto
  with d have once: "\<exists>us. upserts (trace s') = upserts (trace s) @ us \<and> length us \<le> 1
      \<and> (\<forall>u \<in> set us. fst u \<noteq> [])"
    by blast
  have zero: "upserts (trace s') = upserts (trace s)" if "r = Inr 0"
    using u d that by auto
  have early: "r = Inr 0 \<and> upserts (trace s') = upserts (trace s)"
    if h: "requests_get env (alias_url env mid) s = (Inr resp, s1)
          \<and> (status_code resp \<noteq> 200
               \<or> json_body resp = Some (PDict kvs)
                  \<and> (case map_of kvs (ascii ''aliases'') of
                        None \<Rightarrow> True | Some al \<Rightarrow> \<not> truthy al))"
  proof -
    from h have g: "requests_get env (alias_url env mid) s = (Inr resp, s1)" by simp
    have "r = Inr 0"
    proof (cases "status_code resp \<noteq> 200")
      case True
      with assms g show ?thesis by (auto simp: index_song_def split: if_splits)
    next
      case False
      with h have b: "json_body resp = Some (PDict kvs)"
        and n: "case map_of kvs (ascii ''aliases'') of None \<Rightarrow> True | Some al \<Rightarrow> \<not> truthy al"
        by simp_all
      from b n obtain al where "read_aliases resp = Inr al" "\<not> truthy al"
        by (auto simp: read_aliases_def resp_json_def split: option.splits)
      with assms g False show ?thesis by (auto simp: index_song_def)
    qed
    with zero show ?thesis by simp
  qed
  have batch: "upserts (trace s') = upserts (trace s) @
              (if embedded items vs = [] then []
               else [(map (point_of env mid ident) (embedded items vs), \<not> isl r)])"
    if h: "requests_get env (alias_url env mid) s = (Inr resp, s1)
          \<and> status_code resp = 200 \<and> json_body resp = Some (PDict kvs)
          \<and> map_of kvs (ascii ''aliases'') = Some (PList items)
          \<and> embed_each env items s1 = (map Inr vs, s2)
          \<and> (\<forall>av \<in> set (embedded items vs). vector_valid env (snd av)
                \<and> generate_uuid (py_repr env) mid (fst av) = Inr (ident (fst av)))"
  proof -
    from h have c: "requests_get env (alias_url env mid) s = (Inr resp, s1)"
      "status_code resp = 200" "json_body resp = Some (PDict kvs)"
      "map_of kvs (ascii ''aliases'') = Some (PList items)"
      "embed_each env items s1 = (map Inr vs, s2)"
      "\<forall>av \<in> set (embedded items vs). vector_valid env (snd av)
                \<and> generate_uuid (py_repr env) mid (fst av) = Inr (ident (fst av))"
      by simp_all
    show ?thesis by (rule index_song_batch(2) [OF c assms])
  qed
  show ?thesis
    by (rule conjI, rule once, rule conjI, rule impI, erule zero, rule conjI, rule impI,
        erule early, rule impI, erule batch)
qed

text \<open>
  Claim C6.  When the metadata endpoint answers 404 for a track, \<open>index_song\<close> returns 0
  and has done nothing but the GET (so no upsert), and the loop of \<open>main\<close> goes on to the
  next identifiers with the total unchanged.
\<close>

theorem not_found_contributes_nothing:
  assumes "http_get env (alias_url env mid) (world s) = (Inr resp, w)"
    and "status_code resp = 404"
  shows "index_song env mid s = (Inr 0, emit (Get (alias_url env mid)) (s\<lparr>world := w\<rparr>))
     \<and> upserts (trace (snd (index_song env mid s))) = upserts (trace s)
     \<and> index_all env (mid # ids) tot s
         = index_all env ids tot (emit (Get (alias_url env mid)) (s\<lparr>world := w\<rparr>))"
proof -
  from assms have "index_song env mid s = (Inr 0, emit (Get (alias_url env mid)) (s\<lparr>world := w\<rparr>))"
    by (simp add: index_song_def requests_get_def)
  then show ?thesis by simp
qed

lemma id_tyw: "generate_uuid rp (PInt 7) (PStr (ascii ''TYW'')) = Inr (ascii ''da8389d9-68fc-479d-f2f3-c8be14bbb3d5'')"
  by (simp add: generate_uuid_derive derive_def utf8_tyw uuid_tyw)

lemma id_tell: "generate_uuid rp (PInt 7) (PStr (ascii ''Tell Your World'')) = Inr (ascii ''f7f316c5-6d9c-8b73-66dc-81c2b4a02ba5'')"
  by (simp add: generate_uuid_derive derive_def utf8_tell uuid_tell)

lemma alias_url_7: "alias_url (demo_env emb) (PInt 7) = HARUKI_API_BASE @ ascii ''/7''"
  by (simp add: alias_url_def demo_env_def str_int_def dec_digits.simps ascii_def)

lemma demo_get_7: "demo_get (HARUKI_API_BASE @ ascii ''/7'') = ok_response demo_aliases"
  by (simp add: demo_get_def HARUKI_API_BASE_def MUSICS_JSON_URL_def ascii_def)

lemma get_embedding_good:
  "get_embedding (demo_env good_embedding) text s
     = (Inr demo_vector, emit (Post SILICONFLOW_API_URL (embedding_request text)) s)"
  by (simp add: get_embedding_def requests_post_def demo_env_def good_embedding_def
      ok_response_def resp_json_def read_embedding_def ascii_def demo_vector_def)

lemma index_song_demo_7:
  "index_song (demo_env good_embedding) (PInt 7) s =
     (Inr 2, s\<lparr>trace := trace s @
        [Get (HARUKI_API_BASE @ ascii ''/7''),
         Post SILICONFLOW_API_URL (embedding_request (PStr (ascii ''Tell Your World''))),
         Post SILICONFLOW_API_URL (embedding_request (PStr (ascii ''TYW''))),
         Upsert COLLECTION_NAME demo_points True]\<rparr>)"
proof -
  have p: "PointStruct (demo_env good_embedding) i demo_vector pl
      = Inr \<lparr>point_id = i, vector = demo_vector, payload = pl\<rparr>" for i pl
    by (simp add: PointStruct_def demo_env_def demo_vector_def)
  have a: "read_aliases (ok_response demo_aliases)
      = Inr (PList [PStr (ascii ''Tell Your World''), PStr (ascii ''TYW'')])"
    by (simp add: read_aliases_def ok_response_def resp_json_def demo_aliases_def)
  have g: "requests_get (demo_env good_embedding) (HARUKI_API_BASE @ ascii ''/7'') s
      = (Inr (ok_response demo_aliases), emit (Get (HARUKI_API_BASE @ ascii ''/7'')) s)"
    by (simp add: requests_get_def demo_env_def demo_get_7)
  have r: "py_repr (demo_env good_embedding) = (\<lambda>v. [])"
    by (simp add: demo_env_def)
  have v: "truthy demo_vector" by (simp add: demo_vector_def)
  have c: "status_code (ok_response demo_aliases) = 200" by (simp add: ok_response_def)
  have u: "client_upsert (demo_env good_embedding) COLLECTION_NAME ps t
      = (Inr (), emit (Upsert COLLECTION_NAME ps True) t)" for ps t
    by (simp add: client_upsert_def demo_env_def)
  show ?thesis
    by (simp add: index_song_def alias_url_7 g a get_embedding_good r v id_tyw id_tell p
        point_payload_def upsert_points_def u c demo_points_def emit_def)
qed

lemma get_embedding_response:
  assumes "requests_post env SILICONFLOW_API_URL (embedding_request text) s = (Inr resp, s1)"
  shows "fst (get_embedding env text s) =
     (if status_code resp \<noteq> 200 then Inr PNone
      else case resp_json resp of Inl e \<Rightarrow> Inl e | Inr j \<Rightarrow> read_embedding j)"
  using assms by (simp add: get_embedding_def split: sum.splits)

text \<open>
  What \<open>get_embedding\<close> makes of a 200 answer, by the shape of the body.
\<close>

lemma no_data_first_embedding: "no_data resp \<Longrightarrow> first_embedding resp = None"
  by (auto simp: no_data_def first_embedding_def data_of_def
      split: option.splits pyval.splits list.splits)

lemma read_embedding_no_data:
  "json_body resp = Some j \<Longrightarrow> no_data resp \<Longrightarrow> read_embedding j = Inr PNone"
  by (auto simp: no_data_def read_embedding_def split: option.splits pyval.splits)

lemma read_embedding_first:
  "json_body resp = Some j \<Longrightarrow> first_embedding resp = Some emb \<Longrightarrow>
   read_embedding j = Inr emb"
  by (auto simp: read_embedding_def first_embedding_def data_of_def
      split: option.splits pyval.splits list.splits)

lemma read_embedding_raises:
  "json_body resp = Some j \<Longrightarrow> \<not> no_data resp \<Longrightarrow> first_embedding resp = None \<Longrightarrow>
   isl (read_embedding j)"
  by (cases j)
    (auto simp: no_data_def read_embedding_def first_embedding_def data_of_def neq_Nil_conv
      split: option.splits pyval.splits list.splits)

lemma get_embedding_cases:
  assumes "requests_post env SILICONFLOW_API_URL (embedding_request text) s = (Inr resp, s1)"
  shows "status_code resp \<noteq> 200 \<or> no_data resp \<Longrightarrow> fst (get_embedding env text s) = Inr PNone"
    and "status_code resp = 200 \<Longrightarrow> first_embedding resp = Some emb \<Longrightarrow>
      get_embedding env text s = (Inr emb, s1)"
    and "status_code resp = 200 \<Longrightarrow> \<not> no_data resp \<Longrightarrow> first_embedding resp = None \<Longrightarrow>
      \<exists>e. get_embedding env text s = (Inl e, s1)"
proof -
  show "fst (get_embedding env text s) = Inr PNone" if "status_code resp \<noteq> 200 \<or> no_data resp"
  proof (cases "status_code resp \<noteq> 200")
    case True
    then show ?thesis by (simp add: get_embedding_response [OF assms])
  next
    case False
    with that have n: "no_data resp" by simp
    then obtain j where "json_body resp = Some j"
      by (auto simp: no_data_def split: option.splits)
    with n False show ?thesis
      by (simp add: get_embedding_response [OF assms] resp_json_def read_embedding_no_data)
  qed
  show "get_embedding env text s = (Inr emb, s1)"
    if "status_code resp = 200" "first_embedding resp = Some emb"
  proof -
    from that(2) obtain j where "json_body resp = Some j"
      by (auto simp: first_embedding_def data_of_def split: option.splits)
    with that assms show ?thesis
      by (simp add: get_embedding_def resp_json_def read_embedding_first)
  qed
  show "\<exists>e. get_embedding env text s = (Inl e, s1)"
    if "status_code resp = 200" "\<not> no_data resp" "first_embedding resp = None"
  proof (cases "json_body resp")
    case None
    with that assms show ?thesis by (simp add: get_embedding_def resp_json_def)
  next
    case (Some j)
    with that have "isl (read_embedding j)" by (simp add: read_embedding_raises)
    then obtain e where "read_embedding j = Inl e" by (cases "read_embedding j") simp_all
    with that Some assms show ?thesis by (simp add: get_embedding_def resp_json_def)
  qed
qed

text \<open>
  Claim C5, as amended.  When the POST returns a response, \<open>get_embedding\<close> returns \<open>None\<close>
  exactly when the status is not 200, or the 200 body is a JSON object whose \<open>data\<close> is
  absent or empty (any false value: \<open>null\<close>, an empty list, string or object, zero), or
  \<open>data\<close> is a list whose first element is an object with the \<open>embedding\<close> \<open>null\<close>.  On any
  other 200 answer it returns the \<open>embedding\<close> of the first element of \<open>data\<close> when \<open>data\<close>
  is a list whose first element is an object that has one, and raises when there is none
  (the body is not JSON or not an object, \<open>data\<close> is not a list, its first element is not
  an object or has no \<open>embedding\<close>).
\<close>

theorem get_embedding_result:
  assumes "requests_post env SILICONFLOW_API_URL (embedding_request text) s = (Inr resp, s1)"
  shows "(fst (get_embedding env text s) = Inr PNone
            \<longleftrightarrow> status_code resp \<noteq> 200 \<or> no_data resp \<or> first_embedding resp = Some PNone)
     \<and> (status_code resp = 200 \<and> \<not> no_data resp \<longrightarrow>
          (\<forall>emb. first_embedding resp = Some emb \<longrightarrow> fst (get_embedding env text s) = Inr emb)
          \<and> (first_embedding resp = None \<longrightarrow> isl (fst (get_embedding env text s))))"
proof -
  note c = get_embedding_cases [OF assms]
  have other: "(\<forall>emb. first_embedding resp = Some emb \<longrightarrow> fst (get_embedding env text s) = Inr emb)
      \<and> (first_embedding resp = None \<longrightarrow> isl (fst (get_embedding env text s)))"
    if h: "status_code resp = 200 \<and> \<not> no_data resp"
  proof (cases "first_embedding resp")
    case None
    with h c(3) obtain e where "get_embedding env text s = (Inl e, s1)" by blast
    with None show ?thesis by simp
  next
    case (Some emb)
    with h c(2) have "get_embedding env text s = (Inr emb, s1)" by blast
    with Some show ?thesis by simp
  qed
  have none: "fst (get_embedding env text s) = Inr PNone
      \<longleftrightarrow> status_code resp \<noteq> 200 \<or> no_data resp \<or> first_embedding resp = Some PNone"
  proof (cases "status_code resp \<noteq> 200 \<or> no_data resp")
    case True
    with c(1) show ?thesis by blast
  next
    case False
    then have h: "status_code resp = 200 \<and> \<not> no_data resp" by simp
    show ?thesis
    proof (cases "first_embedding resp")
      case None
      with other [OF h] have "isl (fst (get_embedding env text s))" by simp
      with None False show ?thesis by auto
    next
      case (Some emb)
      with other [OF h] have "fst (get_embedding env text s) = Inr emb" by simp
      with Some False show ?thesis by auto
    qed
  qed
  show ?thesis
    by (rule conjI, rule none, rule impI, erule other)
qed

text \<open>
  Claim C8.  The module-level code creates the collection exactly when
  \<open>collection_exists\<close> answers \<open>False\<close>, and then under the configured name, with 1024
  dimensions and the cosine distance; when the answer is \<open>True\<close> (or the call raises) no
  creation call is made.
\<close>

theorem collection_created_when_absent:
  assumes "ensure_collection env s = (r, s')"
  shows "creates (trace s') = creates (trace s) @
     (if fst (qdrant_collection_exists env COLLECTION_NAME (world s)) = Inr False
      then [(ascii ''song_aliases'', 1024, Cosine)] else [])"
proof -
  obtain r0 s1 where e: "client_collection_exists env COLLECTION_NAME s = (r0, s1)"
    by (cases "client_collection_exists env COLLECTION_NAME s")
  then have q: "qdrant_collection_exists env COLLECTION_NAME (world s) = (r0, world s1)"
    and t: "trace s1 = trace s @ [Collection_exists COLLECTION_NAME]"
    using client_collection_exists_result by blast+
  show ?thesis
  proof (cases "r0 = Inr False")
    case True
    with assms e have
      "client_create_collection env COLLECTION_NAME VECTOR_SIZE Cosine
         (print Creating_collection s1) = (r, s')"
      by (simp add: ensure_collection_def)
    then have "trace s' = trace (print Creating_collection s1)
        @ [Create_collection COLLECTION_NAME VECTOR_SIZE Cosine]"
      using client_create_collection_result by blast
    with t q True show ?thesis by (simp add: COLLECTION_NAME_def VECTOR_SIZE_def)
  next
    case False
    with assms e have "s' = s1"
      by (auto simp: ensure_collection_def split: sum.splits if_splits)
    with t q False show ?thesis by simp
  qed
qed

lemma collect_ids_objects:
  "list_all is_dict items \<Longrightarrow> collect_ids items = Inr (concat (map id_field items))"
proof (induction items)
  case Nil
  then show ?case by simp
next
  case (Cons item items)
  then obtain kvs where "item = PDict kvs" by (cases item) simp_all
  with Cons show ?case by (cases "map_of kvs (ascii ''id'')") simp_all
qed

lemma map_insort_key: "map f (insort_key f x xs) = insort (f x) (map f xs)"
  by (induction xs) simp_all

lemma map_sort_key: "map f (sort_key f xs) = sort (map f xs)"
  by (induction xs) (simp_all add: map_insort_key)

lemma PInt_int_of: "list_all is_int xs \<Longrightarrow> map PInt (map int_of xs) = xs"
proof (induction xs)
  case Nil
  then show ?case by simp
next
  case (Cons x xs)
  then show ?case by (cases x) simp_all
qed

lemma PStr_str_of: "list_all is_str xs \<Longrightarrow> map PStr (map str_of xs) = xs"
proof (induction xs)
  case Nil
  then show ?case by simp
next
  case (Cons x xs)
  then show ?case by (cases x) simp_all
qed

lemma py_sort_ints:
  assumes "list_all is_int xs"
  shows "py_sort env xs = Inr (map PInt (sort (map int_of xs)))"
proof -
  from assms have "list_all is_int (sort_key int_of xs)" by (simp add: list_all_iff)
  then have "map PInt (map int_of (sort_key int_of xs)) = sort_key int_of xs"
    by (rule PInt_int_of)
  with assms show ?thesis by (simp add: py_sort_def map_sort_key)
qed

lemma py_sort_strs:
  assumes "list_all is_str xs"
  shows "py_sort env xs = Inr (map PStr (sort (map str_of xs)))"
proof -
  from assms have "list_all is_str (sort_key str_of xs)" by (simp add: list_all_iff)
  then have "map PStr (map str_of (sort_key str_of xs)) = sort_key str_of xs"
    by (rule PStr_str_of)
  moreover have "list_all is_int xs \<Longrightarrow> sort_key int_of xs = sort_key str_of xs"
  proof -
    assume "list_all is_int xs"
    with assms have "xs = []" by (cases xs; cases "hd xs") auto
    then show ?thesis by simp
  qed
  ultimately show ?thesis using assms by (auto simp: py_sort_def map_sort_key)
qed

lemma main_gets:
  assumes "main env s = (r, s')" and "fetch_music_ids env s = (Inr ids, s1)"
  shows "r = Inr (fst (index_all env ids 0 (print (Found_songs (length ids)) s1)))
     \<and> gets (trace s') = gets (trace s) @ MUSICS_JSON_URL # map (alias_url env) ids
     \<and> upserted (trace s') = upserted (trace s) + fst (index_all env ids 0 (print (Found_songs (length ids)) s1))
     \<and> last (trace s') = Print (Complete (fst (index_all env ids 0 (print (Found_songs (length ids)) s1))))"
proof -
  obtain tot s2 where a: "index_all env ids 0 (print (Found_songs (length ids)) s1) = (tot, s2)"
    by (cases "index_all env ids 0 (print (Found_songs (length ids)) s1)")
  from assms a have r: "r = Inr tot" "s' = print (Complete tot) s2"
    by (simp_all add: main_def)
  from fetch_music_ids_trace [OF assms(2)] index_all_count [OF a] r a
  show ?thesis by (simp add: upserted_def)
qed

section \<open>Failures of the embedding call\<close>


section \<open>The order of the tracks\<close>

lemma fetch_music_ids_list:
  assumes "http_get env MUSICS_JSON_URL (world s) = (Inr resp, w)"
    and "status_code resp = 200" and "json_body resp = Some (PList items)"
    and "list_all is_dict items"
    and "py_sort env (concat (map id_field items)) = Inr ids"
  shows "fst (fetch_music_ids env s) = Inr ids"
  using assms
  by (simp add: fetch_music_ids_def requests_get_def print_def emit_def parse_ids_def
      resp_json_def collect_ids_objects)

lemma fetch_music_ids_failed:
  assumes "http_get env MUSICS_JSON_URL (world s) = (Inr resp, w)"
    and "status_code resp \<noteq> 200 \<or> json_body resp = None \<or> isl (parse_ids env resp)"
  shows "fst (fetch_music_ids env s) = Inr []"
proof -
  have "json_body resp = None \<Longrightarrow> isl (parse_ids env resp)"
    by (simp add: parse_ids_def resp_json_def)
  with assms(2) have "status_code resp \<noteq> 200 \<or> isl (parse_ids env resp)" by blast
  with assms(1) show ?thesis
    by (auto simp: fetch_music_ids_def requests_get_def print_def emit_def split: sum.splits)
qed

lemma main_of_ids:
  assumes "main env s = (r, s')" and "fst (fetch_music_ids env s) = Inr ids"
  shows "gets (trace s') = gets (trace s) @ MUSICS_JSON_URL # map (alias_url env) ids"
    and "ids = [] \<Longrightarrow> r = Inr 0 \<and> last (trace s') = Print (Complete 0)"
proof -
  obtain s1 where f: "fetch_music_ids env s = (Inr ids, s1)"
    using assms(2) by (cases "fetch_music_ids env s") simp
  from main_gets [OF assms(1) f]
  show "gets (trace s') = gets (trace s) @ MUSICS_JSON_URL # map (alias_url env) ids"
    by simp
  from main_gets [OF assms(1) f]
  show "ids = [] \<Longrightarrow> r = Inr 0 \<and> last (trace s') = Print (Complete 0)"
    by simp
qed

text \<open>
  Claim C9.  When the track list is fetched with status 200 and is a JSON list of objects
  whose \<open>id\<close> fields, where present, are all integers (or all strings), \<open>main\<close> requests
  the tracks in the ascending order of these ids: items without an \<open>id\<close> are left out and
  duplicates stay.  When the fetch returns another status, or the body is not JSON, or
  anything else in the \<open>try\<close> block raises (the program prints all of these as an error
  parsing the list), no track is requested and \<open>main\<close> reports a total of 0.
\<close>

theorem tracks_in_ascending_order:
  assumes "main env s = (r, s')"
    and "http_get env MUSICS_JSON_URL (world s) = (Inr resp, w)"
  shows "(status_code resp = 200 \<and> json_body resp = Some (PList items)
          \<and> list_all is_dict items \<and> list_all is_int (concat (map id_field items)) \<longrightarrow>
        gets (trace s') = gets (trace s) @ MUSICS_JSON_URL #
          map (alias_url env) (map PInt (sort (map int_of (concat (map id_field items))))))
     \<and> (status_code resp = 200 \<and> json_body resp = Some (PList items)
          \<and> list_all is_dict items \<and> list_all is_str (concat (map id_field items)) \<longrightarrow>
         gets (trace s') = gets (trace s) @ MUSICS_JSON_URL #
          map (alias_url env) (map PStr (sort (map str_of (concat (map id_field items))))))
     \<and> (status_code resp \<noteq> 200 \<or> json_body resp = None \<or> isl (parse_ids env resp) \<longrightarrow>
         gets (trace s') = gets (trace s) @ [MUSICS_JSON_URL] \<and> r = Inr 0
         \<and> last (trace s') = Print (Complete 0))"
proof -
  have ints: "gets (trace s') = gets (trace s) @ MUSICS_JSON_URL #
      map (alias_url env) (map PInt (sort (map int_of (concat (map id_field items)))))"
    if a: "status_code resp = 200 \<and> json_body resp = Some (PList items)
      \<and> list_all is_dict items \<and> list_all is_int (concat (map id_field items))"
  proof -
    from a have c: "status_code resp = 200" "json_body resp = Some (PList items)"
      "list_all is_dict items" "list_all is_int (concat (map id_field items))"
      by simp_all
    have "fst (fetch_music_ids env s)
        = Inr (map PInt (sort (map int_of (concat (map id_field items)))))"
      by (rule fetch_music_ids_list [OF assms(2) c(1) c(2) c(3)]) (simp add: py_sort_ints c(4))
    then show ?thesis by (rule main_of_ids(1) [OF assms(1)])
  qed
  have strs: "gets (trace s') = gets (trace s) @ MUSICS_JSON_URL #
      map (alias_url env) (map PStr (sort (map str_of (concat (map id_field items)))))"
    if a: "status_code resp = 200 \<and> json_body resp = Some (PList items)
      \<and> list_all is_dict items \<and> list_all is_str (concat (map id_field items))"
  proof -
    from a have c: "status_code resp = 200" "json_body resp = Some (PList items)"
      "list_all is_dict items" "list_all is_str (concat (map id_field items))"
      by simp_all
    have "fst (fetch_music_ids env s)
        = Inr (map PStr (sort (map str_of (concat (map id_field items)))))"
      by (rule fetch_music_ids_list [OF assms(2) c(1) c(2) c(3)]) (simp add: py_sort_strs c(4))
    then show ?thesis by (rule main_of_ids(1) [OF assms(1)])
  qed
  have failed: "gets (trace s') = gets (trace s) @ [MUSICS_JSON_URL] \<and> r = Inr 0
      \<and> last (trace s') = Print (Complete 0)"
    if b: "status_code resp \<noteq> 200 \<or> json_body resp = None \<or> isl (parse_ids env resp)"
  proof -
    have f: "fst (fetch_music_ids env s) = Inr []"
      by (rule fetch_music_ids_failed [OF assms(2) b])
    from main_of_ids(1) [OF assms(1) f] main_of_ids(2) [OF assms(1) f]
    show ?thesis by simp
  qed
  show ?thesis
    by (rule conjI, rule impI, erule ints, rule conjI, rule impI, erule strs, rule impI,
        erule failed)
qed

section \<open>The points that are submitted\<close>

text \<open>
  A non-empty value that \<open>get_embedding\<close> returns is the \<open>embedding\<close> of the first element
  of \<open>data\<close> in a 200 answer of the service to the request for that text.
\<close>

lemma get_embedding_service:
  assumes "get_embedding env a st = (Inr v, st')" and "truthy v"
  shows "\<exists>resp. http_post env SILICONFLOW_API_URL (embedding_request a) (world st)
             = (Inr resp, world st')
     \<and> status_code resp = 200 \<and> first_embedding resp = Some v"
proof -
  obtain r0 s1 where p: "requests_post env SILICONFLOW_API_URL (embedding_request a) st = (r0, s1)"
    by (cases "requests_post env SILICONFLOW_API_URL (embedding_request a) st")
  with assms(1) obtain resp where r0: "r0 = Inr resp"
    by (cases r0) (auto simp: get_embedding_def)
  note p' = p [unfolded r0]
  note c = get_embedding_cases [OF p']
  from assms have n: "fst (get_embedding env a st) \<noteq> Inr PNone" by auto
  with c(1) have ok: "status_code resp = 200" "\<not> no_data resp" by blast+
  have "first_embedding resp = Some v \<and> st' = s1"
  proof (cases "first_embedding resp")
    case None
    with c(3) ok assms(1) show ?thesis by auto
  next
    case (Some emb)
    with c(2) ok(1) have "get_embedding env a st = (Inr emb, s1)" by blast
    with assms(1) Some show ?thesis by simp
  qed
  moreover from p' have "http_post env SILICONFLOW_API_URL (embedding_request a) (world st)
      = (Inr resp, world s1)"
    using requests_post_result by blast
  ultimately show ?thesis using ok(1) by blast
qed

lemma collect_points_origin:
  assumes H: "\<forall>a st v st' pid. get_embedding env a st = (Inr v, st') \<and> truthy v
      \<and> vector_valid env v \<longrightarrow>
      P \<lparr>point_id = pid, vector = vector_kept env v, payload = point_payload mid a\<rparr>"
  shows "collect_points env mid items pts s = (Inr pts', s') \<Longrightarrow>
    \<forall>p \<in> set pts. P p \<Longrightarrow> \<forall>p \<in> set pts'. P p"
proof (induction items arbitrary: pts s)
  case Nil
  then show ?case by simp
next
  case (Cons a rest)
  obtain r0 s1 where g: "get_embedding env a s = (r0, s1)"
    by (cases "get_embedding env a s")
  with Cons.prems(1) obtain v where v: "r0 = Inr v" by (cases r0) auto
  show ?case
  proof (cases "truthy v")
    case False
    with Cons.prems(1) g v have "collect_points env mid rest pts s1 = (Inr pts', s')" by simp
    from Cons.IH [OF this Cons.prems(2)] show ?thesis .
  next
    case True
    from Cons.prems(1) g v True obtain pid p where
      p: "PointStruct env pid v (point_payload mid a) = Inr p"
      and c: "collect_points env mid rest (pts @ [p]) s1 = (Inr pts', s')"
      by (auto split: sum.splits)
    from PointStruct_fields [OF p] have ok: "vector_valid env v"
      and e: "p = \<lparr>point_id = pid, vector = vector_kept env v, payload = point_payload mid a\<rparr>"
      by simp_all
    from H g v True ok have "P \<lparr>point_id = pid, vector = vector_kept env v,
        payload = point_payload mid a\<rparr>"
      by blast
    with e Cons.prems(2) have "\<forall>x \<in> set (pts @ [p]). P x" by simp
    from Cons.IH [OF c this] show ?thesis .
  qed
qed

lemma index_song_origin:
  assumes H: "\<forall>a st v st' pid. get_embedding env a st = (Inr v, st') \<and> truthy v
      \<and> vector_valid env v \<longrightarrow>
      P \<lparr>point_id = pid, vector = vector_kept env v, payload = point_payload mid a\<rparr>"
    and "index_song env mid s = (r, s')"
  shows "\<exists>ps. submitted (trace s') = submitted (trace s) @ ps \<and> (\<forall>p \<in> set ps. P p)"
proof -
  from index_song_events [OF assms(2)] obtain evs where
    t: "trace s' = trace s @ Get (alias_url env mid) # evs"
    and u: "upserts evs = []
          \<or> (\<exists>ps items s1 s2. upserts evs = [(ps, \<not> isl r)]
                \<and> collect_points env mid items [] s1 = (Inr ps, s2))"
    by blast
  from t have d: "submitted (trace s') = submitted (trace s) @ submitted evs"
    by (simp add: submitted_def)
  from u show ?thesis
  proof
    assume "upserts evs = []"
    with d show ?thesis by (simp add: submitted_def)
  next
    assume "\<exists>ps items s1 s2. upserts evs = [(ps, \<not> isl r)]
        \<and> collect_points env mid items [] s1 = (Inr ps, s2)"
    then obtain ps items s1 s2 where e: "upserts evs = [(ps, \<not> isl r)]"
      and c: "collect_points env mid items [] s1 = (Inr ps, s2)"
      by blast
    have "\<forall>p \<in> set ps. P p"
      using collect_points_origin [OF H c] by simp
    with d e show ?thesis by (simp add: submitted_def)
  qed
qed

lemma index_all_origin:
  assumes H: "\<forall>mid a st v st' pid. get_embedding env a st = (Inr v, st') \<and> truthy v
      \<and> vector_valid env v \<longrightarrow>
      P \<lparr>point_id = pid, vector = vector_kept env v, payload = point_payload mid a\<rparr>"
  shows "index_all env ids tot s = (tot', s') \<Longrightarrow>
    \<exists>ps. submitted (trace s') = submitted (trace s) @ ps \<and> (\<forall>p \<in> set ps. P p)"
proof (induction ids arbitrary: tot s)
  case Nil
  then show ?case by simp
next
  case (Cons i ids)
  obtain r s1 where i: "index_song env i s = (r, s1)"
    by (cases "index_song env i s")
  from H have Hi: "\<forall>a st v st' pid. get_embedding env a st = (Inr v, st') \<and> truthy v
      \<and> vector_valid env v \<longrightarrow>
      P \<lparr>point_id = pid, vector = vector_kept env v, payload = point_payload i a\<rparr>"
    by blast
  from index_song_origin [OF Hi i] obtain ps where
    1: "submitted (trace s1) = submitted (trace s) @ ps" "\<forall>p \<in> set ps. P p"
    by blast
  from Cons.prems i obtain tot1 s1' where
    n: "index_all env ids tot1 s1' = (tot', s')" and "s1' = s1 \<or> (\<exists>l. s1' = print l s1)"
    by (cases r) (auto split: if_splits)
  then have "submitted (trace s1') = submitted (trace s1)"
    by (auto simp: submitted_def)
  moreover from Cons.IH [OF n] obtain ps' where
    "submitted (trace s') = submitted (trace s1') @ ps'" "\<forall>p \<in> set ps'. P p"
    by blast
  ultimately have "submitted (trace s') = submitted (trace s) @ (ps @ ps')
      \<and> (\<forall>p \<in> set (ps @ ps'). P p)"
    using 1 by auto
  then show ?case by blast
qed

text \<open>
  Claim C10, as amended.  The program does not check the length of a vector.  Every point
  that \<open>main\<close> submits to \<open>upsert\<close> carries, for the alias in its payload, what
  \<open>PointStruct\<close> keeps of the \<open>embedding\<close> in the first element of \<open>data\<close> of a 200 answer
  of the embedding service to the request for that very alias.  So the vector is a list
  of exactly 1024 numbers provided the embeddings the service returns are, and the
  constructor keeps such a list one.
\<close>

theorem submitted_vectors_have_dimension:
  assumes "main env s = (r, s')"
  shows "\<exists>ps. submitted (trace s') = submitted (trace s) @ ps
     \<and> (\<forall>p \<in> set ps. \<exists>a v w resp w'.
            map_of (payload p) (ascii ''alias'') = Some a
          \<and> http_post env SILICONFLOW_API_URL (embedding_request a) w = (Inr resp, w')
          \<and> status_code resp = 200 \<and> first_embedding resp = Some v \<and> truthy v
          \<and> vector_valid env v \<and> vector p = vector_kept env v)
     \<and> ((\<forall>a w resp w' v.
            http_post env SILICONFLOW_API_URL (embedding_request a) w = (Inr resp, w')
            \<and> status_code resp = 200 \<and> first_embedding resp = Some v \<and> truthy v
            \<longrightarrow> vec1024 v)
         \<and> (\<forall>v. vector_valid env v \<and> vec1024 v \<longrightarrow> vec1024 (vector_kept env v))
         \<longrightarrow> (\<forall>p \<in> set ps. vec1024 (vector p)))"
proof -
  let ?P = "\<lambda>p. \<exists>a v w resp w'.
            map_of (payload p) (ascii ''alias'') = Some a
          \<and> http_post env SILICONFLOW_API_URL (embedding_request a) w = (Inr resp, w')
          \<and> status_code resp = 200 \<and> first_embedding resp = Some v \<and> truthy v
          \<and> vector_valid env v \<and> vector p = vector_kept env v"
  have al: "map_of (point_payload mid a) (ascii ''alias'') = Some a" for mid a
    by (simp add: point_payload_def ascii_def)
  have H: "\<forall>mid a st v st' pid. get_embedding env a st = (Inr v, st') \<and> truthy v
      \<and> vector_valid env v \<longrightarrow>
      ?P \<lparr>point_id = pid, vector = vector_kept env v, payload = point_payload mid a\<rparr>"
  proof (intro allI impI)
    fix mid a st v st' pid
    assume h: "get_embedding env a st = (Inr v, st') \<and> truthy v \<and> vector_valid env v"
    then obtain resp where "http_post env SILICONFLOW_API_URL (embedding_request a) (world st)
             = (Inr resp, world st')" "status_code resp = 200" "first_embedding resp = Some v"
      using get_embedding_service by blast
    with h al [of mid a]
    show "?P \<lparr>point_id = pid, vector = vector_kept env v, payload = point_payload mid a\<rparr>"
      by auto
  qed
  have "\<exists>ps. submitted (trace s') = submitted (trace s) @ ps \<and> (\<forall>p \<in> set ps. ?P p)"
  proof (cases "fst (fetch_music_ids env s)")
    case (Inl e)
    then obtain s1 where f: "fetch_music_ids env s = (Inl e, s1)"
      by (cases "fetch_music_ids env s") simp
    with assms have "s' = s1" by (simp add: main_def)
    with fetch_music_ids_trace [OF f] show ?thesis by (simp add: submitted_def)
  next
    case (Inr ids)
    then obtain s1 where f: "fetch_music_ids env s = (Inr ids, s1)"
      by (cases "fetch_music_ids env s") simp
    obtain tot s2 where a: "index_all env ids 0 (print (Found_songs (length ids)) s1) = (tot, s2)"
      by (cases "index_all env ids 0 (print (Found_songs (length ids)) s1)")
    with assms f have s': "s' = print (Complete tot) s2" by (simp add: main_def)
    from index_all_origin [OF H a] obtain ps where
      "submitted (trace s2) = submitted (trace (print (Found_songs (length ids)) s1)) @ ps"
      "\<forall>p \<in> set ps. ?P p"
      by blast
    with fetch_music_ids_trace [OF f] s' show ?thesis by (simp add: submitted_def)
  qed
  then obtain ps where 1: "submitted (trace s') = submitted (trace s) @ ps"
    and 2: "\<forall>p \<in> set ps. ?P p"
    by blast
  have 3: "\<forall>p \<in> set ps. vec1024 (vector p)"
    if "(\<forall>a w resp w' v.
            http_post env SILICONFLOW_API_URL (embedding_request a) w = (Inr resp, w')
            \<and> status_code resp = 200 \<and> first_embedding resp = Some v \<and> truthy v
            \<longrightarrow> vec1024 v)
         \<and> (\<forall>v. vector_valid env v \<and> vec1024 v \<longrightarrow> vec1024 (vector_kept env v))"
  proof
    fix p assume "p \<in> set ps"
    with 2 obtain a v w resp w' where
      "http_post env SILICONFLOW_API_URL (embedding_request a) w = (Inr resp, w')"
      "status_code resp = 200" "first_embedding resp = Some v" "truthy v"
      "vector_valid env v" "vector p = vector_kept env v"
      by blast
    with that show "vec1024 (vector p)" by metis
  qed
  from 1 2 3 show ?thesis by blast
qed

section \<open>The total\<close>

text \<open>
  Claim C3.  The total that \<open>main\<close> reports is the number of points in the upserts that
  returned during the run.  When \<open>index_song\<close> returns, its result is the length of the
  list it handed to \<open>upsert\<close>, and 0 when it made no upsert.  A track with two aliases that
  both embed gets one upsert of exactly two points, with the identifiers \<open>generate_uuid\<close>
  gives and the payload \<open>mid\<close>, \<open>alias\<close>, \<open>source = "haruki"\<close>.
\<close>

theorem total_is_points_upserted:
  "(main env s = (Inr tot, s') \<longrightarrow>
      upserted (trace s') = upserted (trace s) + tot \<and> last (trace s') = Print (Complete tot))
   \<and> (index_song env mid s = (Inr n, s1) \<longrightarrow>
        (n = 0 \<and> upserts (trace s1) = upserts (trace s))
        \<or> (\<exists>ps. upserts (trace s1) = upserts (trace s) @ [(ps, True)] \<and> n = length ps \<and> 0 < n))
   \<and> (requests_get env (alias_url env mid) s = (Inr resp, t1)
        \<and> status_code resp = 200 \<and> json_body resp = Some (PDict kvs)
        \<and> map_of kvs (ascii ''aliases'') = Some (PList [a1, a2])
        \<and> get_embedding env a1 t1 = (Inr v1, t2) \<and> truthy v1 \<and> vector_valid env v1
        \<and> get_embedding env a2 t2 = (Inr v2, t3) \<and> truthy v2 \<and> vector_valid env v2
        \<and> generate_uuid (py_repr env) mid a1 = Inr id1
        \<and> generate_uuid (py_repr env) mid a2 = Inr id2
        \<and> client_upsert env COLLECTION_NAME
             [\<lparr>point_id = id1, vector = vector_kept env v1,
               payload = [(ascii ''mid'', mid), (ascii ''alias'', a1),
                          (ascii ''source'', PStr (ascii ''haruki''))]\<rparr>,
              \<lparr>point_id = id2, vector = vector_kept env v2,
               payload = [(ascii ''mid'', mid), (ascii ''alias'', a2),
                          (ascii ''source'', PStr (ascii ''haruki''))]\<rparr>] t3 = (Inr (), t4)
       \<longrightarrow> index_song env mid s = (Inr 2, t4)
         \<and> upserts (trace t4) = upserts (trace s) @
             [([\<lparr>point_id = id1, vector = vector_kept env v1,
                 payload = [(ascii ''mid'', mid), (ascii ''alias'', a1),
                            (ascii ''source'', PStr (ascii ''haruki''))]\<rparr>,
                \<lparr>point_id = id2, vector = vector_kept env v2,
                 payload = [(ascii ''mid'', mid), (ascii ''alias'', a2),
                            (ascii ''source'', PStr (ascii ''haruki''))]\<rparr>], True)])"
proof -
  have total: "upserted (trace s') = upserted (trace s) + tot \<and> last (trace s') = Print (Complete tot)"
    if m: "main env s = (Inr tot, s')"
  proof -
    from m obtain ids s0 where f: "fetch_music_ids env s = (Inr ids, s0)"
      by (cases "fetch_music_ids env s"; cases "fst (fetch_music_ids env s)")
        (auto simp: main_def)
    from main_gets [OF m f] show ?thesis by simp
  qed
  have count: "(n = 0 \<and> upserts (trace s1) = upserts (trace s))
      \<or> (\<exists>ps. upserts (trace s1) = upserts (trace s) @ [(ps, True)] \<and> n = length ps \<and> 0 < n)"
    if i: "index_song env mid s = (Inr n, s1)"
  proof -
    from index_song_events [OF i] obtain evs where
      t: "trace s1 = trace s @ Get (alias_url env mid) # evs"
      and u: "(upserts evs = [] \<and> n = 0)
          \<or> (\<exists>ps. ps \<noteq> [] \<and> upserts evs = [(ps, True)] \<and> n = length ps)"
      by auto
    from t have "upserts (trace s1) = upserts (trace s) @ upserts evs" by simp
    with u show ?thesis by auto
  qed
  have two: "index_song env mid s = (Inr 2, t4)
      \<and> upserts (trace t4) = upserts (trace s) @
             [([\<lparr>point_id = id1, vector = vector_kept env v1,
                 payload = [(ascii ''mid'', mid), (ascii ''alias'', a1),
                            (ascii ''source'', PStr (ascii ''haruki''))]\<rparr>,
                \<lparr>point_id = id2, vector = vector_kept env v2,
                 payload = [(ascii ''mid'', mid), (ascii ''alias'', a2),
                            (ascii ''source'', PStr (ascii ''haruki''))]\<rparr>], True)]"
    if h: "requests_get env (alias_url env mid) s = (Inr resp, t1)
        \<and> status_code resp = 200 \<and> json_body resp = Some (PDict kvs)
        \<and> map_of kvs (ascii ''aliases'') = Some (PList [a1, a2])
        \<and> get_embedding env a1 t1 = (Inr v1, t2) \<and> truthy v1 \<and> vector_valid env v1
        \<and> get_embedding env a2 t2 = (Inr v2, t3) \<and> truthy v2 \<and> vector_valid env v2
        \<and> generate_uuid (py_repr env) mid a1 = Inr id1
        \<and> generate_uuid (py_repr env) mid a2 = Inr id2
        \<and> client_upsert env COLLECTION_NAME
             [\<lparr>point_id = id1, vector = vector_kept env v1,
               payload = [(ascii ''mid'', mid), (ascii ''alias'', a1),
                          (ascii ''source'', PStr (ascii ''haruki''))]\<rparr>,
              \<lparr>point_id = id2, vector = vector_kept env v2,
               payload = [(ascii ''mid'', mid), (ascii ''alias'', a2),
                          (ascii ''source'', PStr (ascii ''haruki''))]\<rparr>] t3 = (Inr (), t4)"
  proof -
    from h have r: "read_aliases resp = Inr (PList [a1, a2])"
      by (simp add: read_aliases_def resp_json_def)
    from h r have i: "index_song env mid s = (Inr 2, t4)"
      by (simp add: index_song_def PointStruct_def point_payload_def upsert_points_def)
    from h have "trace t1 = trace s @ [Get (alias_url env mid)]"
      using requests_get_result by blast
    moreover from h obtain e2 where "trace t2 = trace t1 @ e2" "upserts e2 = []"
      using get_embedding_quiet by blast
    moreover from h obtain e3 where "trace t3 = trace t2 @ e3" "upserts e3 = []"
      using get_embedding_quiet by blast
    moreover from h have "trace t4 = trace t3 @ [Upsert COLLECTION_NAME
             [\<lparr>point_id = id1, vector = vector_kept env v1,
               payload = [(ascii ''mid'', mid), (ascii ''alias'', a1),
                          (ascii ''source'', PStr (ascii ''haruki''))]\<rparr>,
              \<lparr>point_id = id2, vector = vector_kept env v2,
               payload = [(ascii ''mid'', mid), (ascii ''alias'', a2),
                          (ascii ''source'', PStr (ascii ''haruki''))]\<rparr>] True]"
      using client_upsert_result by fastforce
    ultimately show ?thesis using i by simp
  qed
  show ?thesis
    by (rule conjI, rule impI, erule total, rule conjI, rule impI, erule count, rule impI,
        erule two)
qed

section \<open>Runs in the small world\<close>

lemma py_repr_demo: "py_repr (demo_env emb) = (\<lambda>v. [])"
  by (simp add: demo_env_def)

lemma alias_url_99: "alias_url (demo_env emb) (PInt 99) = HARUKI_API_BASE @ ascii ''/99''"
  by (simp add: alias_url_def demo_env_def str_int_def dec_digits.simps ascii_def)

lemma demo_get_99:
  "demo_get (HARUKI_API_BASE @ ascii ''/99'') = \<lparr>status_code = 404, json_body = None\<rparr>"
  by (simp add: demo_get_def HARUKI_API_BASE_def MUSICS_JSON_URL_def ascii_def)

lemma demo_get_musics: "demo_get MUSICS_JSON_URL = ok_response demo_musics"
  by (simp add: demo_get_def)

lemma requests_get_demo:
  "requests_get (demo_env emb) url s = (Inr (demo_get url), emit (Get url) s)"
  by (simp add: requests_get_def demo_env_def)

lemma requests_post_demo:
  "requests_post (demo_env emb) url body s = (Inr (emb body), emit (Post url body) s)"
  by (simp add: requests_post_def demo_env_def)

lemma client_upsert_demo:
  "client_upsert (demo_env emb) name ps s = (Inr (), emit (Upsert name ps True) s)"
  by (simp add: client_upsert_def demo_env_def)

lemma vector_valid_demo: "vector_valid (demo_env emb) demo_vector"
  by (simp add: demo_env_def demo_vector_def)

lemma vector_kept_demo: "vector_kept (demo_env emb) v = v"
  by (simp add: demo_env_def)

lemma truthy_demo_vector: "truthy demo_vector"
  by (simp add: demo_vector_def)

lemma read_aliases_demo:
  "read_aliases (ok_response demo_aliases)
     = Inr (PList [PStr (ascii ''Tell Your World''), PStr (ascii ''TYW'')])"
  by (simp add: read_aliases_def ok_response_def resp_json_def demo_aliases_def)

lemma status_ok_response: "status_code (ok_response v) = 200"
  by (simp add: ok_response_def)

lemma index_song_demo_99:
  "index_song (demo_env emb) (PInt 99) s
     = (Inr 0, emit (Get (HARUKI_API_BASE @ ascii ''/99'')) s)"
  by (simp add: index_song_def alias_url_99 requests_get_demo demo_get_99)

lemma fetch_music_ids_demo:
  "fetch_music_ids (demo_env emb) s
     = (Inr [PInt 7, PInt 99],
        emit (Get MUSICS_JSON_URL) (print Fetching_music_list s))"
  by (simp add: fetch_music_ids_def requests_get_demo demo_get_musics status_ok_response
      parse_ids_def ok_response_def resp_json_def demo_musics_def py_sort_def ascii_def)

lemma main_demo:
  "main (demo_env good_embedding) s =
     (Inr 2, s\<lparr>trace := trace s @
        [Print Fetching_music_list, Get MUSICS_JSON_URL, Print (Found_songs 2),
         Get (HARUKI_API_BASE @ ascii ''/7''),
         Post SILICONFLOW_API_URL (embedding_request (PStr (ascii ''Tell Your World''))),
         Post SILICONFLOW_API_URL (embedding_request (PStr (ascii ''TYW''))),
         Upsert COLLECTION_NAME demo_points True,
         Print (Indexed_song (PInt 7) 2),
         Get (HARUKI_API_BASE @ ascii ''/99''),
         Print (Complete 2)]\<rparr>)"
  by (simp add: main_def fetch_music_ids_demo index_song_demo_7 index_song_demo_99
      emit_def print_def)

lemma ensure_collection_demo:
  "ensure_collection (demo_env emb) s =
     (if COLLECTION_NAME \<in> set (world s)
      then (Inr (), emit (Collection_exists COLLECTION_NAME) s)
      else (Inr (), s\<lparr>world := COLLECTION_NAME # world s,
                      trace := trace s @ [Collection_exists COLLECTION_NAME,
                        Print Creating_collection,
                        Create_collection COLLECTION_NAME VECTOR_SIZE Cosine]\<rparr>))"
  by (simp add: ensure_collection_def client_collection_exists_def
      client_create_collection_def demo_env_def emit_def print_def)


section \<open>The claims, at concrete inputs\<close>

lemma http_get_demo: "http_get (demo_env emb) url w = (Inr (demo_get url), w)"
  by (simp add: demo_env_def)

text \<open>Claim C6 in the small world: track 99 is unknown.\<close>

theorem not_found_contributes_nothing_witness:
  "http_get (demo_env good_embedding) (alias_url (demo_env good_embedding) (PInt 99)) (world start)
     = (Inr \<lparr>status_code = 404, json_body = None\<rparr>, [])
   \<and> index_song (demo_env good_embedding) (PInt 99) start
       = (Inr 0, \<lparr>world = [], trace = [Get (HARUKI_API_BASE @ ascii ''/99'')]\<rparr>)
   \<and> upserts (trace (snd (index_song (demo_env good_embedding) (PInt 99) start))) = []
   \<and> index_all (demo_env good_embedding) [PInt 99, PInt 7] 0 start
       = index_all (demo_env good_embedding) [PInt 7] 0
           \<lparr>world = [], trace = [Get (HARUKI_API_BASE @ ascii ''/99'')]\<rparr>"
proof -
  have h: "http_get (demo_env good_embedding) (alias_url (demo_env good_embedding) (PInt 99))
      (world start) = (Inr \<lparr>status_code = 404, json_body = None\<rparr>, [])"
    by (simp add: alias_url_99 http_get_demo demo_get_99 start_def)
  have c: "status_code \<lparr>status_code = 404, json_body = None\<rparr> = 404" by simp
  from not_found_contributes_nothing [OF h c, of "[PInt 7]" 0] h
  show ?thesis by (simp add: alias_url_99 start_def emit_def)
qed

lemma get_embedding_failing:
  "get_embedding (demo_env failing_embedding) text s
     = (Inr PNone, print Embedding_error (emit (Post SILICONFLOW_API_URL (embedding_request text)) s))"
  by (simp add: get_embedding_def requests_post_demo failing_embedding_def)



lemma get_embedding_big:
  "get_embedding (demo_env big_embedding) text s
     = (Inr big_vector, emit (Post SILICONFLOW_API_URL (embedding_request text)) s)"
  by (simp add: get_embedding_def requests_post_demo big_embedding_def ok_response_def
      resp_json_def read_embedding_def big_vector_def ascii_def)

lemma demo_ident_tyw: "demo_ident (PStr (ascii ''TYW'')) = ascii ''da8389d9-68fc-479d-f2f3-c8be14bbb3d5''"
  by (simp add: demo_ident_def)

lemma demo_ident_tell:
  "demo_ident (PStr (ascii ''Tell Your World'')) = ascii ''f7f316c5-6d9c-8b73-66dc-81c2b4a02ba5''"
  by (simp add: demo_ident_def ascii_def)

lemma requests_get_7:
  "requests_get (demo_env emb) (alias_url (demo_env emb) (PInt 7)) s
     = (Inr (ok_response demo_aliases), emit (Get (HARUKI_API_BASE @ ascii ''/7'')) s)"
  by (simp add: requests_get_demo alias_url_7 demo_get_7)

lemma vec1024_big_vector: "vec1024 big_vector"
  by (simp add: big_vector_def VECTOR_SIZE_def list_all_iff)

lemma truthy_big_vector: "truthy big_vector"
  by (simp add: big_vector_def)

lemma vector_valid_big: "vector_valid (demo_env emb) big_vector"
  by (simp add: demo_env_def big_vector_def)

lemma index_song_big_7:
  "index_song (demo_env big_embedding) (PInt 7) s =
     (Inr 2, s\<lparr>trace := trace s @
        [Get (HARUKI_API_BASE @ ascii ''/7''),
         Post SILICONFLOW_API_URL (embedding_request (PStr (ascii ''Tell Your World''))),
         Post SILICONFLOW_API_URL (embedding_request (PStr (ascii ''TYW''))),
         Upsert COLLECTION_NAME big_points True]\<rparr>)"
proof -
  have p: "PointStruct (demo_env big_embedding) i big_vector pl
      = Inr \<lparr>point_id = i, vector = big_vector, payload = pl\<rparr>" for i pl
    by (simp add: PointStruct_def vector_valid_big vector_kept_demo)
  have c: "status_code (ok_response demo_aliases) = 200" by (simp add: ok_response_def)
  have b: "big_points =
     [\<lparr>point_id = ascii ''f7f316c5-6d9c-8b73-66dc-81c2b4a02ba5'', vector = big_vector,
       payload = [(ascii ''mid'', PInt 7), (ascii ''alias'', PStr (ascii ''Tell Your World'')),
                  (ascii ''source'', PStr (ascii ''haruki''))]\<rparr>,
      \<lparr>point_id = ascii ''da8389d9-68fc-479d-f2f3-c8be14bbb3d5'', vector = big_vector,
       payload = [(ascii ''mid'', PInt 7), (ascii ''alias'', PStr (ascii ''TYW'')),
                  (ascii ''source'', PStr (ascii ''haruki''))]\<rparr>]"
    by (simp add: big_points_def demo_points_def)
  show ?thesis
    unfolding b
    by (simp add: index_song_def requests_get_7 read_aliases_demo get_embedding_big py_repr_demo
        truthy_big_vector id_tyw id_tell p point_payload_def upsert_points_def
        client_upsert_demo c emit_def)
qed

lemma main_big:
  "main (demo_env big_embedding) s =
     (Inr 2, s\<lparr>trace := trace s @
        [Print Fetching_music_list, Get MUSICS_JSON_URL, Print (Found_songs 2),
         Get (HARUKI_API_BASE @ ascii ''/7''),
         Post SILICONFLOW_API_URL (embedding_request (PStr (ascii ''Tell Your World''))),
         Post SILICONFLOW_API_URL (embedding_request (PStr (ascii ''TYW''))),
         Upsert COLLECTION_NAME big_points True,
         Print (Indexed_song (PInt 7) 2),
         Get (HARUKI_API_BASE @ ascii ''/99''),
         Print (Complete 2)]\<rparr>)"
  by (simp add: main_def fetch_music_ids_demo index_song_big_7 index_song_demo_99
      emit_def print_def)


lemma json_body_demo_aliases:
  "json_body (ok_response demo_aliases)
     = Some (PDict [(ascii ''aliases'', PList [PStr (ascii ''Tell Your World''), PStr (ascii ''TYW'')])])"
  by (simp add: ok_response_def demo_aliases_def)

text \<open>
  Claim C7 in the small world: track 7 gets one upsert, of its two points; it gets none
  when the embedding service answers 500 for both aliases; track 99, which is unknown,
  gets none; and a track whose list of aliases is empty gets none.
\<close>

theorem upsert_once_per_track_witness:
  "upserts (trace (snd (index_song (demo_env good_embedding) (PInt 7) start)))
     = [(demo_points, True)]
   \<and> embed_each (demo_env failing_embedding)
         [PStr (ascii ''Tell Your World''), PStr (ascii ''TYW'')]
         (emit (Get (HARUKI_API_BASE @ ascii ''/7'')) start)
       = (map Inr [PNone, PNone],
          snd (embed_each (demo_env failing_embedding)
                [PStr (ascii ''Tell Your World''), PStr (ascii ''TYW'')]
                (emit (Get (HARUKI_API_BASE @ ascii ''/7'')) start)))
   \<and> upserts (trace (snd (index_song (demo_env failing_embedding) (PInt 7) start))) = []
   \<and> fst (index_song (demo_env good_embedding) (PInt 99) start) = Inr 0
   \<and> upserts (trace (snd (index_song (demo_env good_embedding) (PInt 99) start))) = []
   \<and> fst (http_get bare_env (alias_url bare_env (PInt 7)) (world start))
       = Inr (ok_response (PDict [(ascii ''aliases'', PList [])]))
   \<and> fst (index_song bare_env (PInt 7) start) = Inr 0
   \<and> upserts (trace (snd (index_song bare_env (PInt 7) start))) = []"
proof -
  let ?good = "demo_env good_embedding" and ?bad = "demo_env failing_embedding"
  let ?items = "[PStr (ascii ''Tell Your World''), PStr (ascii ''TYW'')]"
  let ?kvs = "[(ascii ''aliases'', PList ?items)]"
  let ?sa = "emit (Get (HARUKI_API_BASE @ ascii ''/7'')) start"
  have z: "upserts (trace start) = []" by (simp add: start_def)
  have m: "map_of ?kvs (ascii ''aliases'') = Some (PList ?items)" by simp
  have c: "status_code (ok_response demo_aliases) = 200" by (simp add: ok_response_def)
  have e: "index_song ?good (PInt 7) start = (Inr 2, snd (index_song ?good (PInt 7) start))"
    by (simp add: index_song_demo_7)
  have eg: "embed_each ?good ?items ?sa
      = (map Inr [demo_vector, demo_vector], snd (embed_each ?good ?items ?sa))"
    by (simp add: get_embedding_good)
  have xg: "embedded ?items [demo_vector, demo_vector]
      = [(PStr (ascii ''Tell Your World''), demo_vector), (PStr (ascii ''TYW''), demo_vector)]"
    by (simp add: embedded_def truthy_demo_vector)
  have gg: "\<forall>av \<in> set (embedded ?items [demo_vector, demo_vector]).
      vector_valid ?good (snd av)
      \<and> generate_uuid (py_repr ?good) (PInt 7) (fst av) = Inr (demo_ident (fst av))"
    by (simp add: xg vector_valid_demo id_tell id_tyw demo_ident_tell demo_ident_tyw)
  have pg: "map (point_of ?good (PInt 7) demo_ident) (embedded ?items [demo_vector, demo_vector])
      = demo_points"
    by (simp add: xg point_of_def demo_points_def demo_ident_tell demo_ident_tyw vector_kept_demo)
  from upsert_once_per_track [OF e, of "ok_response demo_aliases" ?sa ?kvs ?items
      "[demo_vector, demo_vector]" "snd (embed_each ?good ?items ?sa)" demo_ident]
    requests_get_7 [of good_embedding start] c json_body_demo_aliases m eg gg
  have "upserts (trace (snd (index_song ?good (PInt 7) start)))
      = upserts (trace start) @
          (if embedded ?items [demo_vector, demo_vector] = [] then []
           else [(map (point_of ?good (PInt 7) demo_ident)
                    (embedded ?items [demo_vector, demo_vector]), \<not> isl (Inr 2 :: error + nat))])"
    by blast
  then have 1: "upserts (trace (snd (index_song ?good (PInt 7) start))) = [(demo_points, True)]"
    unfolding pg by (simp add: z xg)
  have f: "index_song ?bad (PInt 7) start
      = (fst (index_song ?bad (PInt 7) start), snd (index_song ?bad (PInt 7) start))"
    by simp
  have eb: "embed_each ?bad ?items ?sa = (map Inr [PNone, PNone], snd (embed_each ?bad ?items ?sa))"
    by (simp add: get_embedding_failing)
  have xb: "embedded ?items [PNone, PNone] = []"
    by (simp add: embedded_def)
  have gb: "\<forall>av \<in> set (embedded ?items [PNone, PNone]).
      vector_valid ?bad (snd av)
      \<and> generate_uuid (py_repr ?bad) (PInt 7) (fst av) = Inr (demo_ident (fst av))"
    by (simp add: xb)
  from upsert_once_per_track [OF f, of "ok_response demo_aliases" ?sa ?kvs ?items
      "[PNone, PNone]" "snd (embed_each ?bad ?items ?sa)" demo_ident]
    requests_get_7 [of failing_embedding start] c json_body_demo_aliases m eb gb
  have "upserts (trace (snd (index_song ?bad (PInt 7) start)))
      = upserts (trace start) @
          (if embedded ?items [PNone, PNone] = [] then []
           else [(map (point_of ?bad (PInt 7) demo_ident) (embedded ?items [PNone, PNone]),
                  \<not> isl (fst (index_song ?bad (PInt 7) start)))])"
    by blast
  then have 2: "upserts (trace (snd (index_song ?bad (PInt 7) start))) = []"
    by (simp add: z xb)
  have n: "index_song ?good (PInt 99) start
      = (fst (index_song ?good (PInt 99) start), snd (index_song ?good (PInt 99) start))"
    by simp
  have g99: "requests_get ?good (alias_url ?good (PInt 99)) start
      = (Inr \<lparr>status_code = 404, json_body = None\<rparr>,
         emit (Get (HARUKI_API_BASE @ ascii ''/99'')) start)"
    by (simp add: requests_get_demo alias_url_99 demo_get_99)
  have "status_code \<lparr>status_code = 404, json_body = None\<rparr> \<noteq> 200" by simp
  with upsert_once_per_track [OF n, of "\<lparr>status_code = 404, json_body = None\<rparr>"
      "emit (Get (HARUKI_API_BASE @ ascii ''/99'')) start"] g99
  have "fst (index_song ?good (PInt 99) start) = Inr 0
      \<and> upserts (trace (snd (index_song ?good (PInt 99) start))) = upserts (trace start)"
    by blast
  with z have 3: "fst (index_song ?good (PInt 99) start) = Inr 0
      \<and> upserts (trace (snd (index_song ?good (PInt 99) start))) = []"
    by simp
  let ?none = "ok_response (PDict [(ascii ''aliases'', PList [])])"
  let ?sn = "emit (Get (alias_url bare_env (PInt 7))) start"
  have b: "index_song bare_env (PInt 7) start
      = (fst (index_song bare_env (PInt 7) start), snd (index_song bare_env (PInt 7) start))"
    by simp
  have h: "fst (http_get bare_env (alias_url bare_env (PInt 7)) (world start)) = Inr ?none"
    by (simp add: bare_env_def)
  have gn: "requests_get bare_env (alias_url bare_env (PInt 7)) start = (Inr ?none, ?sn)"
    by (simp add: requests_get_def bare_env_def)
  have bn: "json_body ?none = Some (PDict [(ascii ''aliases'', PList [])])
      \<and> (case map_of [(ascii ''aliases'', PList [])] (ascii ''aliases'') of
            None \<Rightarrow> True | Some al \<Rightarrow> \<not> truthy al)"
    by (simp add: ok_response_def)
  from upsert_once_per_track [OF b, of ?none ?sn "[(ascii ''aliases'', PList [])]"] gn bn
  have "fst (index_song bare_env (PInt 7) start) = Inr 0
      \<and> upserts (trace (snd (index_song bare_env (PInt 7) start))) = upserts (trace start)"
    by blast
  with z have 4: "fst (index_song bare_env (PInt 7) start) = Inr 0
      \<and> upserts (trace (snd (index_song bare_env (PInt 7) start))) = []"
    by simp
  from 1 2 3 4 eb h show ?thesis by blast
qed

lemma first_embedding_good: "first_embedding (good_embedding body) = Some demo_vector"
  by (simp add: first_embedding_def data_of_def good_embedding_def ok_response_def)

lemma first_embedding_big: "first_embedding (big_embedding body) = Some big_vector"
  by (simp add: first_embedding_def data_of_def big_embedding_def ok_response_def)

lemma first_embedding_null: "first_embedding (null_embedding body) = Some PNone"
  by (simp add: first_embedding_def data_of_def null_embedding_def ok_response_def)

lemma first_embedding_unparsable: "first_embedding (unparsable_embedding body) = None"
  by (simp add: first_embedding_def data_of_def unparsable_embedding_def)

lemma no_data_demo:
  "\<not> no_data (good_embedding body)" "\<not> no_data (null_embedding body)"
  "\<not> no_data (unparsable_embedding body)" "no_data (empty_embedding body)"
  by (simp_all add: no_data_def good_embedding_def null_embedding_def unparsable_embedding_def
      empty_embedding_def ok_response_def demo_vector_def)

lemma status_demo:
  "status_code (good_embedding body) = 200" "status_code (null_embedding body) = 200"
  "status_code (unparsable_embedding body) = 200" "status_code (empty_embedding body) = 200"
  "status_code (big_embedding body) = 200" "status_code (failing_embedding body) = 500"
  by (simp_all add: good_embedding_def null_embedding_def unparsable_embedding_def
      empty_embedding_def big_embedding_def failing_embedding_def ok_response_def)

text \<open>
  Claim C5 in the small world.  The request for \<open>TYW\<close> gives the embedding of the first
  element when the service answers with one; \<open>None\<close> when it answers 500, or 200 with an
  empty \<open>data\<close>, or 200 with the embedding \<open>null\<close>; and it raises when the 200 answer is
  not JSON.
\<close>

theorem get_embedding_result_witness:
  "first_embedding (good_embedding (embedding_request (PStr (ascii ''TYW'')))) = Some demo_vector
   \<and> fst (get_embedding (demo_env good_embedding) (PStr (ascii ''TYW'')) start) = Inr demo_vector
   \<and> status_code (failing_embedding (embedding_request (PStr (ascii ''TYW'')))) = 500
   \<and> fst (get_embedding (demo_env failing_embedding) (PStr (ascii ''TYW'')) start) = Inr PNone
   \<and> no_data (empty_embedding (embedding_request (PStr (ascii ''TYW''))))
   \<and> fst (get_embedding (demo_env empty_embedding) (PStr (ascii ''TYW'')) start) = Inr PNone
   \<and> first_embedding (null_embedding (embedding_request (PStr (ascii ''TYW'')))) = Some PNone
   \<and> fst (get_embedding (demo_env null_embedding) (PStr (ascii ''TYW'')) start) = Inr PNone
   \<and> json_body (unparsable_embedding (embedding_request (PStr (ascii ''TYW'')))) = None
   \<and> isl (fst (get_embedding (demo_env unparsable_embedding) (PStr (ascii ''TYW'')) start))"
proof -
  let ?a = "PStr (ascii ''TYW'')"
  let ?b = "embedding_request ?a"
  have p: "requests_post (demo_env emb) SILICONFLOW_API_URL ?b start
      = (Inr (emb ?b), emit (Post SILICONFLOW_API_URL ?b) start)" for emb
    by (rule requests_post_demo)
  from get_embedding_result [OF p [of good_embedding]] status_demo(1) [of ?b]
    no_data_demo(1) [of ?b] first_embedding_good [of ?b]
  have 1: "fst (get_embedding (demo_env good_embedding) ?a start) = Inr demo_vector"
    by blast
  from get_embedding_result [OF p [of failing_embedding]] status_demo(6) [of ?b]
  have 2: "fst (get_embedding (demo_env failing_embedding) ?a start) = Inr PNone"
    by simp
  from get_embedding_result [OF p [of empty_embedding]] no_data_demo(4) [of ?b]
  have 3: "fst (get_embedding (demo_env empty_embedding) ?a start) = Inr PNone"
    by blast
  from get_embedding_result [OF p [of null_embedding]] first_embedding_null [of ?b]
  have 4: "fst (get_embedding (demo_env null_embedding) ?a start) = Inr PNone"
    by blast
  from get_embedding_result [OF p [of unparsable_embedding]] status_demo(3) [of ?b]
    no_data_demo(3) [of ?b] first_embedding_unparsable [of ?b]
  have 5: "isl (fst (get_embedding (demo_env unparsable_embedding) ?a start))"
    by blast
  have 6: "json_body (unparsable_embedding ?b) = None"
    by (simp add: unparsable_embedding_def)
  from 1 2 3 4 5 6 first_embedding_good [of ?b] status_demo(6) [of ?b] no_data_demo(4) [of ?b]
    first_embedding_null [of ?b]
  show ?thesis by blast
qed

text \<open>
  Claim C5 as stated fails on a 200 answer whose body is not JSON: the call raises, it
  returns neither \<open>None\<close> nor an embedding.  And an answer whose first element has the
  embedding \<open>null\<close> gives \<open>None\<close> although \<open>data\<close> is not empty.
\<close>

theorem get_embedding_counterexample:
  "status_code (unparsable_embedding (embedding_request (PStr (ascii ''TYW'')))) = 200
   \<and> fst (get_embedding (demo_env unparsable_embedding) (PStr (ascii ''TYW'')) start)
       = Inl JSONDecodeError
   \<and> data_of (null_embedding (embedding_request (PStr (ascii ''TYW''))))
       = Some (PList [PDict [(ascii ''embedding'', PNone)]])
   \<and> fst (get_embedding (demo_env null_embedding) (PStr (ascii ''TYW'')) start) = Inr PNone"
  by (simp add: get_embedding_def requests_post_demo unparsable_embedding_def null_embedding_def
      ok_response_def resp_json_def read_embedding_def data_of_def ascii_def)




text \<open>
  Claim C8 in the small world, which starts without the collection: the first run creates
  it, the second run makes no creation call.
\<close>

theorem collection_created_when_absent_witness:
  "creates (trace (snd (ensure_collection (demo_env good_embedding) start)))
     = [(ascii ''song_aliases'', 1024, Cosine)]
   \<and> creates (trace (snd (script (demo_env good_embedding)
         (snd (script (demo_env good_embedding) start)))))
       = [(ascii ''song_aliases'', 1024, Cosine)]"
proof -
  let ?env = "demo_env good_embedding"
  let ?s1 = "snd (script ?env start)"
  have 1: "ensure_collection ?env start
      = (fst (ensure_collection ?env start), snd (ensure_collection ?env start))"
    by simp
  have 2: "ensure_collection ?env ?s1
      = (fst (ensure_collection ?env ?s1), snd (ensure_collection ?env ?s1))"
    by simp
  have a: "fst (qdrant_collection_exists ?env COLLECTION_NAME (world start)) = Inr False"
    by (simp add: demo_env_def start_def)
  have w: "world ?s1 = [COLLECTION_NAME]" and c: "creates (trace ?s1) = [(ascii ''song_aliases'', 1024, Cosine)]"
    by (simp_all add: script_def ensure_collection_demo main_demo start_def COLLECTION_NAME_def
        VECTOR_SIZE_def)
  then have b: "fst (qdrant_collection_exists ?env COLLECTION_NAME (world ?s1)) = Inr True"
    by (simp add: demo_env_def)
  from collection_created_when_absent [OF 1] a
  have "creates (trace (snd (ensure_collection ?env start))) = [(ascii ''song_aliases'', 1024, Cosine)]"
    by (simp add: start_def)
  moreover from collection_created_when_absent [OF 2] b c
  have "creates (trace (snd (ensure_collection ?env ?s1))) = [(ascii ''song_aliases'', 1024, Cosine)]"
    by simp
  then have "creates (trace (snd (script ?env ?s1))) = [(ascii ''song_aliases'', 1024, Cosine)]"
    using w by (simp add: script_def ensure_collection_demo main_demo)
  ultimately show ?thesis by blast
qed

text \<open>
  Claim C9 in the small world: the list names 99 and 7 (and an item without an id), and
  the tracks are requested in the order 7, 99.  In the world where the list is answered
  404, no track is requested and the total is 0.
\<close>

theorem tracks_in_ascending_order_witness:
  "http_get (demo_env good_embedding) MUSICS_JSON_URL (world start)
     = (Inr (ok_response demo_musics), [])
   \<and> gets (trace (snd (main (demo_env good_embedding) start)))
       = [MUSICS_JSON_URL, HARUKI_API_BASE @ ascii ''/7'', HARUKI_API_BASE @ ascii ''/99'']
   \<and> http_get offline_env MUSICS_JSON_URL (world start)
       = (Inr \<lparr>status_code = 404, json_body = None\<rparr>, [])
   \<and> gets (trace (snd (main offline_env start))) = [MUSICS_JSON_URL]
   \<and> fst (main offline_env start) = Inr 0
   \<and> last (trace (snd (main offline_env start))) = Print (Complete 0)"
proof -
  let ?env = "demo_env good_embedding"
  let ?items = "[PDict [(ascii ''id'', PInt 99)], PDict [(ascii ''title'', PStr (ascii ''x''))],
      PDict [(ascii ''id'', PInt 7), (ascii ''title'', PStr (ascii ''Tell Your World''))]]"
  have m: "main ?env start = (fst (main ?env start), snd (main ?env start))" by simp
  have h: "http_get ?env MUSICS_JSON_URL (world start) = (Inr (ok_response demo_musics), [])"
    by (simp add: demo_env_def demo_get_musics start_def)
  have i: "status_code (ok_response demo_musics) = 200
      \<and> json_body (ok_response demo_musics) = Some (PList ?items)
      \<and> list_all is_dict ?items \<and> list_all is_int (concat (map id_field ?items))"
    by (simp add: ok_response_def demo_musics_def ascii_def)
  have o: "main offline_env start = (fst (main offline_env start), snd (main offline_env start))"
    by simp
  have g: "http_get offline_env MUSICS_JSON_URL (world start)
      = (Inr \<lparr>status_code = 404, json_body = None\<rparr>, [])"
    by (simp add: offline_env_def start_def)
  have n: "status_code \<lparr>status_code = 404, json_body = None\<rparr> \<noteq> 200
      \<or> json_body \<lparr>status_code = 404, json_body = None\<rparr> = None
      \<or> isl (parse_ids offline_env \<lparr>status_code = 404, json_body = None\<rparr>)"
    by simp
  from tracks_in_ascending_order [OF m h, of ?items] i
  have "gets (trace (snd (main ?env start))) = gets (trace start) @ MUSICS_JSON_URL #
      map (alias_url ?env) (map PInt (sort (map int_of (concat (map id_field ?items)))))"
    by blast
  then have "gets (trace (snd (main ?env start)))
      = [MUSICS_JSON_URL, HARUKI_API_BASE @ ascii ''/7'', HARUKI_API_BASE @ ascii ''/99'']"
    by (simp add: start_def alias_url_7 alias_url_99 ascii_def)
  moreover from tracks_in_ascending_order [OF o g, of "[]"] n
  have "gets (trace (snd (main offline_env start))) = gets (trace start) @ [MUSICS_JSON_URL]
      \<and> fst (main offline_env start) = Inr 0
      \<and> last (trace (snd (main offline_env start))) = Print (Complete 0)"
    by blast
  ultimately show ?thesis using h g by (simp add: start_def)
qed

lemma http_post_demo: "http_post (demo_env emb) url body w = (Inr (emb body), w)"
  by (simp add: demo_env_def)

text \<open>
  Claim C10 in a world whose embedding service returns vectors of 1024 numbers: the run
  submits the two points of track 7, each with the alias it was requested for, and both
  vectors have 1024 numbers.
\<close>

theorem submitted_vectors_have_dimension_witness:
  "submitted (trace (snd (main (demo_env big_embedding) start))) = big_points
   \<and> map (\<lambda>p. map_of (payload p) (ascii ''alias'')) big_points
       = [Some (PStr (ascii ''Tell Your World'')), Some (PStr (ascii ''TYW''))]
   \<and> (\<forall>body. status_code (big_embedding body) = 200
          \<and> first_embedding (big_embedding body) = Some big_vector)
   \<and> vec1024 big_vector
   \<and> map (\<lambda>p. vec1024 (vector p)) big_points = [True, True]"
proof -
  let ?env = "demo_env big_embedding"
  have m: "main ?env start = (fst (main ?env start), snd (main ?env start))"
    by simp
  have s: "submitted (trace (snd (main ?env start))) = big_points"
    by (simp add: main_big start_def submitted_def)
  have z: "submitted (trace start) = []"
    by (simp add: start_def submitted_def)
  have h: "(\<forall>a w resp w' v.
            http_post ?env SILICONFLOW_API_URL (embedding_request a) w = (Inr resp, w')
            \<and> status_code resp = 200 \<and> first_embedding resp = Some v \<and> truthy v
            \<longrightarrow> vec1024 v)
         \<and> (\<forall>v. vector_valid ?env v \<and> vec1024 v \<longrightarrow> vec1024 (vector_kept ?env v))"
    using vec1024_big_vector by (auto simp: http_post_demo first_embedding_big vector_kept_demo)
  from submitted_vectors_have_dimension [OF m] obtain ps where
    1: "submitted (trace (snd (main ?env start))) = submitted (trace start) @ ps"
    and 2: "(\<forall>a w resp w' v.
            http_post ?env SILICONFLOW_API_URL (embedding_request a) w = (Inr resp, w')
            \<and> status_code resp = 200 \<and> first_embedding resp = Some v \<and> truthy v
            \<longrightarrow> vec1024 v)
         \<and> (\<forall>v. vector_valid ?env v \<and> vec1024 v \<longrightarrow> vec1024 (vector_kept ?env v))
         \<longrightarrow> (\<forall>p \<in> set ps. vec1024 (vector p))"
    by blast
  from 1 s z have "ps = big_points" by simp
  with 2 h have "\<forall>p \<in> set big_points. vec1024 (vector p)" by blast
  then have v: "map (\<lambda>p. vec1024 (vector p)) big_points = [True, True]"
    by (simp add: big_points_def demo_points_def)
  have a: "map (\<lambda>p. map_of (payload p) (ascii ''alias'')) big_points
       = [Some (PStr (ascii ''Tell Your World'')), Some (PStr (ascii ''TYW''))]"
    by (simp add: big_points_def demo_points_def ascii_def)
  from s a v vec1024_big_vector show ?thesis
    by (simp add: status_demo first_embedding_big)
qed

text \<open>
  Claim C10 as stated fails: the service of the small world returns vectors of two
  numbers, and the run submits them as they are.
\<close>

theorem short_vector_counterexample:
  "submitted (trace (snd (main (demo_env good_embedding) start))) = demo_points
   \<and> vector (hd demo_points) = PList [PFloat 0x3FD0000000000000, PFloat 0x3FE0000000000000]
   \<and> \<not> vec1024 (vector (hd demo_points))"
  by (simp add: main_demo start_def submitted_def demo_points_def demo_vector_def
      VECTOR_SIZE_def)

text \<open>
  Claim C3 in the small world: the run reports 2, the two points of track 7, upserted in
  one call.
\<close>

theorem total_is_points_upserted_witness:
  "fst (main (demo_env good_embedding) start) = Inr 2
   \<and> upserted (trace (snd (main (demo_env good_embedding) start))) = 2
   \<and> last (trace (snd (main (demo_env good_embedding) start))) = Print (Complete 2)
   \<and> index_song (demo_env good_embedding) (PInt 7) start
       = (Inr 2, \<lparr>world = [], trace =
            [Get (HARUKI_API_BASE @ ascii ''/7''),
             Post SILICONFLOW_API_URL (embedding_request (PStr (ascii ''Tell Your World''))),
             Post SILICONFLOW_API_URL (embedding_request (PStr (ascii ''TYW''))),
             Upsert COLLECTION_NAME demo_points True]\<rparr>)
   \<and> upserts (trace (snd (index_song (demo_env good_embedding) (PInt 7) start)))
       = [(demo_points, True)]"
proof -
  let ?env = "demo_env good_embedding"
  let ?a1 = "PStr (ascii ''Tell Your World'')"
  let ?a2 = "PStr (ascii ''TYW'')"
  let ?t1 = "emit (Get (alias_url ?env (PInt 7))) start"
  let ?t2 = "emit (Post SILICONFLOW_API_URL (embedding_request ?a1)) ?t1"
  let ?t3 = "emit (Post SILICONFLOW_API_URL (embedding_request ?a2)) ?t2"
  let ?t4 = "emit (Upsert COLLECTION_NAME demo_points True) ?t3"
  note t = total_is_points_upserted [where env = ?env and s = start and tot = 2
      and s' = "snd (main ?env start)" and mid = "PInt 7" and n = 2
      and ?s1.0 = "snd (index_song ?env (PInt 7) start)"
      and resp = "ok_response demo_aliases" and ?t1.0 = ?t1
      and kvs = "[(ascii ''aliases'', PList [?a1, ?a2])]" and ?a1.0 = ?a1 and ?a2.0 = ?a2
      and ?v1.0 = demo_vector and ?t2.0 = ?t2 and ?v2.0 = demo_vector and ?t3.0 = ?t3
      and ?id1.0 = "ascii ''f7f316c5-6d9c-8b73-66dc-81c2b4a02ba5''"
      and ?id2.0 = "ascii ''da8389d9-68fc-479d-f2f3-c8be14bbb3d5''" and ?t4.0 = ?t4]
  have m: "main ?env start = (Inr 2, snd (main ?env start))"
    by (simp add: main_demo)
  have i: "index_song ?env (PInt 7) start = (Inr 2, snd (index_song ?env (PInt 7) start))"
    by (simp add: index_song_demo_7)
  have h: "requests_get ?env (alias_url ?env (PInt 7)) start = (Inr (ok_response demo_aliases), ?t1)
      \<and> status_code (ok_response demo_aliases) = 200
      \<and> json_body (ok_response demo_aliases) = Some (PDict [(ascii ''aliases'', PList [?a1, ?a2])])
      \<and> map_of [(ascii ''aliases'', PList [?a1, ?a2])] (ascii ''aliases'') = Some (PList [?a1, ?a2])
      \<and> get_embedding ?env ?a1 ?t1 = (Inr demo_vector, ?t2) \<and> truthy demo_vector
      \<and> vector_valid ?env demo_vector
      \<and> get_embedding ?env ?a2 ?t2 = (Inr demo_vector, ?t3)
      \<and> generate_uuid (py_repr ?env) (PInt 7) ?a1
           = Inr (ascii ''f7f316c5-6d9c-8b73-66dc-81c2b4a02ba5'')
      \<and> generate_uuid (py_repr ?env) (PInt 7) ?a2
           = Inr (ascii ''da8389d9-68fc-479d-f2f3-c8be14bbb3d5'')
      \<and> client_upsert ?env COLLECTION_NAME demo_points ?t3 = (Inr (), ?t4)"
    by (simp add: requests_get_demo alias_url_7 demo_get_7 ok_response_def demo_aliases_def
        get_embedding_good truthy_demo_vector vector_valid_demo id_tell id_tyw
        client_upsert_demo)
  have z: "upserted (trace start) = 0" "upserts (trace start) = []"
    by (simp_all add: start_def upserted_def)
  have e: "?t4 = \<lparr>world = [], trace =
            [Get (HARUKI_API_BASE @ ascii ''/7''),
             Post SILICONFLOW_API_URL (embedding_request (PStr (ascii ''Tell Your World''))),
             Post SILICONFLOW_API_URL (embedding_request (PStr (ascii ''TYW''))),
             Upsert COLLECTION_NAME demo_points True]\<rparr>"
    by (simp add: start_def emit_def alias_url_7)
  have 1: "fst (main ?env start) = Inr 2" by (simp add: main_demo)
  from t m have "upserted (trace (snd (main ?env start))) = upserted (trace start) + 2
      \<and> last (trace (snd (main ?env start))) = Print (Complete 2)"
    by blast
  with z have 2: "upserted (trace (snd (main ?env start))) = 2
      \<and> last (trace (snd (main ?env start))) = Print (Complete 2)"
    by simp
  from t h have 3: "index_song ?env (PInt 7) start = (Inr 2, ?t4)
      \<and> upserts (trace ?t4) = upserts (trace start) @ [(demo_points, True)]"
    by (simp add: demo_points_def vector_kept_demo)
  then have 4: "upserts (trace (snd (index_song ?env (PInt 7) start))) = [(demo_points, True)]"
    using z by simp
  from 1 2 3 4 show ?thesis unfolding e by blast
qed

end
